theory Spec2Isabelle
  imports Complex_Main
begin

section \<open>Numbers and vectors\<close>

text \<open>
  JavaScript numbers are modelled as the reals: every claim below is about the
  control flow, the comparisons and the exact snaps of the code, none about rounding.
  \<open>Math.atan2\<close> is the platform's two-argument arctangent (signed zeros left out).
\<close>

record vec3 =
  vx :: real
  vy :: real
  vz :: real

definition vec :: "real \<Rightarrow> real \<Rightarrow> real \<Rightarrow> vec3" where
  "vec x y z = \<lparr>vx = x, vy = y, vz = z\<rparr>"

definition subVectors :: "vec3 \<Rightarrow> vec3 \<Rightarrow> vec3" where
  "subVectors a b = vec (vx a - vx b) (vy a - vy b) (vz a - vz b)"

definition distanceTo :: "vec3 \<Rightarrow> vec3 \<Rightarrow> real" where
  "distanceTo a b =
     sqrt ((vx a - vx b) * (vx a - vx b) + (vy a - vy b) * (vy a - vy b)
           + (vz a - vz b) * (vz a - vz b))"

definition lerpVectors :: "vec3 \<Rightarrow> vec3 \<Rightarrow> real \<Rightarrow> vec3" where
  "lerpVectors a b t =
     vec (vx a + (vx b - vx a) * t) (vy a + (vy b - vy a) * t) (vz a + (vz b - vz a) * t)"

definition atan2 :: "real \<Rightarrow> real \<Rightarrow> real" where
  "atan2 y x =
     (if 0 < x then arctan (y / x)
      else if x < 0 then (if 0 \<le> y then arctan (y / x) + pi else arctan (y / x) - pi)
      else if 0 < y then pi / 2
      else if y < 0 then - (pi / 2)
      else 0)"

text \<open>\<open>THREE.MathUtils.damp(x, y, lambda, dt)\<close> of the three.js library.\<close>

definition damp :: "real \<Rightarrow> real \<Rightarrow> real \<Rightarrow> real \<Rightarrow> real" where
  "damp x y lam dt = x + (y - x) * (1 - exp (- lam * dt))"

section \<open>The avatar controller (aria.js)\<close>

subsection \<open>Movement tuning\<close>

definition walkSpeed :: real where "walkSpeed = 1.1"
definition turnSpeed :: real where "turnSpeed = 2.4"
definition ANGLE_TOLERANCE :: real where "ANGLE_TOLERANCE = 0.004"
definition bobAmplitude :: real where "bobAmplitude = 0.02"
definition bobFrequency :: real where "bobFrequency = 5.5"
definition swayAmplitude :: real where "swayAmplitude = 0.015"
definition leanAmplitude :: real where "leanAmplitude = 0.01"
definition idleBreath :: real where "idleBreath = 0.012"

definition ARIA_START_POS :: vec3 where
  "ARIA_START_POS = vec 0 0 2"

subsection \<open>dampRotation\<close>

text \<open>The two wrapping loops of \<open>dampRotation\<close>:
  \<open>while (diff > Math.PI) diff -= Math.PI * 2\<close> and
  \<open>while (diff < -Math.PI) diff += Math.PI * 2\<close>.\<close>

function wrapAbove :: "real \<Rightarrow> real" where
  "wrapAbove diff = (if diff > pi then wrapAbove (diff - pi * 2) else diff)"
  by pat_completeness auto
termination
proof (relation "measure (\<lambda>d. nat \<lceil>(d - pi) / (2 * pi)\<rceil>)")
  show "wf (measure (\<lambda>d. nat \<lceil>(d - pi) / (2 * pi)\<rceil>))" by simp
next
  fix diff :: real
  assume gt: "pi < diff"
  have eq: "(diff - pi * 2 - pi) / (2 * pi) = (diff - pi) / (2 * pi) - 1"
    by (simp add: field_simps)
  have pos: "0 < (diff - pi) / (2 * pi)" using gt by simp
  then have "0 < \<lceil>(diff - pi) / (2 * pi)\<rceil>" by linarith
  moreover have "\<lceil>(diff - pi * 2 - pi) / (2 * pi)\<rceil> = \<lceil>(diff - pi) / (2 * pi)\<rceil> - 1"
    unfolding eq by linarith
  ultimately have "nat \<lceil>(diff - pi * 2 - pi) / (2 * pi)\<rceil> < nat \<lceil>(diff - pi) / (2 * pi)\<rceil>"
    by linarith
  then show "(diff - pi * 2, diff) \<in> measure (\<lambda>d. nat \<lceil>(d - pi) / (2 * pi)\<rceil>)"
    by (simp only: in_measure)
qed

function wrapBelow :: "real \<Rightarrow> real" where
  "wrapBelow diff = (if diff < - pi then wrapBelow (diff + pi * 2) else diff)"
  by pat_completeness auto
termination
proof (relation "measure (\<lambda>d. nat \<lceil>(- pi - d) / (2 * pi)\<rceil>)")
  show "wf (measure (\<lambda>d. nat \<lceil>(- pi - d) / (2 * pi)\<rceil>))" by simp
next
  fix diff :: real
  assume lt: "diff < - pi"
  have eq: "(- pi - (diff + pi * 2)) / (2 * pi) = (- pi - diff) / (2 * pi) - 1"
    by (simp add: field_simps)
  have pos: "0 < (- pi - diff) / (2 * pi)" using lt by simp
  then have "0 < \<lceil>(- pi - diff) / (2 * pi)\<rceil>" by linarith
  moreover have "\<lceil>(- pi - (diff + pi * 2)) / (2 * pi)\<rceil> = \<lceil>(- pi - diff) / (2 * pi)\<rceil> - 1"
    unfolding eq by linarith
  ultimately have "nat \<lceil>(- pi - (diff + pi * 2)) / (2 * pi)\<rceil> < nat \<lceil>(- pi - diff) / (2 * pi)\<rceil>"
    by linarith
  then show "(diff + pi * 2, diff) \<in> measure (\<lambda>d. nat \<lceil>(- pi - d) / (2 * pi)\<rceil>)"
    by (simp only: in_measure)
qed

declare wrapAbove.simps [simp del]
declare wrapBelow.simps [simp del]

record damp_result =
  dvalue :: real
  finished :: bool

definition dampRotation :: "real \<Rightarrow> real \<Rightarrow> real \<Rightarrow> real \<Rightarrow> damp_result" where
  "dampRotation current target speed dt =
     (let diff = wrapBelow (wrapAbove (target - current));
          factor = 1.0 - exp (- speed * dt * 2.0);
          step0 = diff * factor;
          minSpeed = 0.1 * dt;
          step = (if \<bar>step0\<bar> < minSpeed \<and> \<bar>diff\<bar> > ANGLE_TOLERANCE
                  then sgn diff * minSpeed else step0)
      in if \<bar>diff\<bar> < ANGLE_TOLERANCE
         then \<lparr>dvalue = target, finished = True\<rparr>
         else \<lparr>dvalue = current + step, finished = False\<rparr>)"

subsection \<open>Module state\<close>

datatype aria_state = Idle | TurningToTarget | Walking | TurningToCamera | Speaking

text \<open>
  The closure stored in \<open>pendingWalkResolve\<close> and \<open>onWalkComplete\<close> captures the
  request id of its call and the \<open>resolve\<close> function of that call's promise; the
  timeout closure captures the same two. Promises are numbered in the order they are
  created.
\<close>

record walk_cb =
  cbRequestId :: nat
  cbPromise :: nat

record walk_timer =
  tRequestId :: nat
  tPromise :: nat
  tDelayMs :: real

text \<open>
  \<open>ariaLoaded\<close> stands for \<open>ariaGroup\<close> being non-null; \<open>position\<close> and
  \<open>rotX\<close>, \<open>rotY\<close>, \<open>rotZ\<close> are \<open>ariaGroup.position\<close> and \<open>ariaGroup.rotation\<close>,
  \<open>modelRotX\<close>, \<open>modelRotZ\<close> the rotation of \<open>ariaModel\<close>. \<open>mixer\<close> is \<open>None\<close> when
  the model has no animation, else the time the mixer has been advanced by.
  The lights are created in the same loader callback as \<open>ariaGroup\<close>.
  \<open>timers\<close> holds the armed timeouts of the window by handle; \<open>resolveCalls p\<close>
  counts the calls of promise \<open>p\<close>'s \<open>resolve\<close> function and \<open>settledLog\<close> lists the
  promises in the order they settle: a promise settles at the first call of its
  \<open>resolve\<close> and ignores every later one.
\<close>

record aria =
  ariaLoaded :: bool
  position :: vec3
  rotX :: real
  rotY :: real
  rotZ :: real
  modelRotX :: real
  modelRotZ :: real
  mixer :: "real option"
  spotTargetPos :: vec3
  highlightIntensity :: real
  ariaState :: aria_state
  targetRotation :: real
  walkProgress :: real
  walkStartPos :: vec3
  walkEndPos :: vec3
  walkDuration :: real
  walkElapsed :: real
  stepPhase :: real
  lastUpdateTime :: real
  lightIntensity :: real
  targetLightIntensity :: real
  isSpeakingState :: bool
  onWalkComplete :: "walk_cb option"
  walkRequestId :: nat
  pendingWalkResolve :: "walk_cb option"
  pendingWalkTimeout :: "nat option"
  timers :: "nat \<rightharpoonup> walk_timer"
  nextTimer :: nat
  nextPromise :: nat
  resolveCalls :: "nat \<Rightarrow> nat"
  settledLog :: "nat list"

definition ariaModule :: aria where
  "ariaModule =
     \<lparr>ariaLoaded = False, position = vec 0 0 0, rotX = 0, rotY = 0, rotZ = 0,
      modelRotX = 0, modelRotZ = 0, mixer = None, spotTargetPos = vec 0 0 0,
      highlightIntensity = 0, ariaState = Idle, targetRotation = 0, walkProgress = 0,
      walkStartPos = vec 0 0 0, walkEndPos = vec 0 0 0, walkDuration = 0, walkElapsed = 0,
      stepPhase = 0, lastUpdateTime = 0, lightIntensity = 1.0, targetLightIntensity = 1.0,
      isSpeakingState = False, onWalkComplete = None, walkRequestId = 0,
      pendingWalkResolve = None, pendingWalkTimeout = None, timers = Map.empty,
      nextTimer = 1, nextPromise = 0, resolveCalls = (\<lambda>_. 0), settledLog = []\<rparr>"

text \<open>The success callback of \<open>loadARIA\<close>; \<open>hasAnimations\<close> says whether the
  loaded file carries animation clips.\<close>

definition loadARIA :: "bool \<Rightarrow> aria \<Rightarrow> aria" where
  "loadARIA hasAnimations s =
     s\<lparr>ariaLoaded := True, position := ARIA_START_POS,
       mixer := (if hasAnimations then Some 0 else None),
       highlightIntensity := 3.0\<rparr>"

subsection \<open>Promises and timers\<close>

definition resolvePromise :: "nat \<Rightarrow> aria \<Rightarrow> aria" where
  "resolvePromise p s =
     s\<lparr>resolveCalls := (resolveCalls s)(p := resolveCalls s p + 1),
       settledLog := (if p \<in> set (settledLog s) then settledLog s else settledLog s @ [p])\<rparr>"

definition setTimeout :: "walk_timer \<Rightarrow> aria \<Rightarrow> nat \<times> aria" where
  "setTimeout t s =
     (nextTimer s, s\<lparr>timers := (timers s)(nextTimer s \<mapsto> t), nextTimer := nextTimer s + 1\<rparr>)"

definition clearTimeout :: "nat \<Rightarrow> aria \<Rightarrow> aria" where
  "clearTimeout h s = s\<lparr>timers := (timers s)(h := None)\<rparr>"

subsection \<open>walkToPosition\<close>

text \<open>The body of the closure \<open>pendingWalkResolve\<close>.\<close>

definition callWalkResolve :: "walk_cb \<Rightarrow> aria \<Rightarrow> aria" where
  "callWalkResolve cb s =
     (if cbRequestId cb \<noteq> walkRequestId s then s
      else
        let s1 = (case pendingWalkTimeout s of
                    Some h \<Rightarrow> (clearTimeout h s)\<lparr>pendingWalkTimeout := None\<rparr>
                  | None \<Rightarrow> s)
        in resolvePromise (cbPromise cb) (s1\<lparr>onWalkComplete := None, pendingWalkResolve := None\<rparr>))"

text \<open>\<open>walkToPosition\<close> returns the new promise together with the new state.\<close>

definition walkToPosition :: "vec3 \<Rightarrow> aria \<Rightarrow> nat \<times> aria" where
  "walkToPosition targetPos s0 =
     (let p = nextPromise s0;
          s = s0\<lparr>nextPromise := p + 1\<rparr>
      in if \<not> ariaLoaded s then (p, resolvePromise p s)
         else
           let s = (case pendingWalkResolve s of
                      Some cb \<Rightarrow> (callWalkResolve cb s)\<lparr>pendingWalkResolve := None\<rparr>
                    | None \<Rightarrow> s);
               s = (case pendingWalkTimeout s of
                      Some h \<Rightarrow> (clearTimeout h s)\<lparr>pendingWalkTimeout := None\<rparr>
                    | None \<Rightarrow> s);
               s = s\<lparr>walkRequestId := walkRequestId s + 1\<rparr>;
               requestId = walkRequestId s;
               cb = \<lparr>cbRequestId = requestId, cbPromise = p\<rparr>;
               s = s\<lparr>pendingWalkResolve := Some cb\<rparr>;
               s = s\<lparr>onWalkComplete := pendingWalkResolve s\<rparr>;
               s = s\<lparr>walkStartPos := position s\<rparr>;
               s = s\<lparr>walkEndPos := targetPos\<rparr>;
               s = s\<lparr>walkEndPos := (walkEndPos s)\<lparr>vy := 0\<rparr>\<rparr>;
               s = s\<lparr>walkProgress := 0, walkElapsed := 0, stepPhase := 0\<rparr>;
               walkDistance = distanceTo (walkStartPos s) (walkEndPos s);
               s = s\<lparr>walkDuration := max 3.6 (walkDistance / walkSpeed)\<rparr>;
               safetyTimeoutMs = max 8000 (walkDuration s * 1500);
               (h, s) = setTimeout \<lparr>tRequestId = requestId, tPromise = p,
                                     tDelayMs = safetyTimeoutMs\<rparr> s;
               s = s\<lparr>pendingWalkTimeout := Some h\<rparr>;
               dirToTarget = subVectors (walkEndPos s) (position s);
               s = s\<lparr>targetRotation := atan2 (vx dirToTarget) (vz dirToTarget)\<rparr>
           in (p, s\<lparr>ariaState := TurningToTarget\<rparr>))"

text \<open>
  The callback armed by \<open>walkToPosition\<close>, run when the window fires timer \<open>h\<close>.
  A timer that was cleared, or has fired already, is no longer in \<open>timers\<close>.
\<close>

definition walkTimeout :: "nat \<Rightarrow> aria \<Rightarrow> aria" where
  "walkTimeout h s0 =
     (case timers s0 h of
        None \<Rightarrow> s0
      | Some t \<Rightarrow>
          let s = s0\<lparr>timers := (timers s0)(h := None)\<rparr>
          in if tRequestId t \<noteq> walkRequestId s then s
             else if ariaState s \<noteq> Idle \<and> ariaState s \<noteq> Speaking then
               let s = s\<lparr>position := walkEndPos s\<rparr>;
                   s = s\<lparr>position := (position s)\<lparr>vy := 0\<rparr>\<rparr>;
                   s = (case onWalkComplete s of
                          Some cb \<Rightarrow> callWalkResolve cb (s\<lparr>onWalkComplete := None\<rparr>)
                        | None \<Rightarrow> s)
               in resolvePromise (tPromise t) s
             else s)"

definition walkToStart :: "aria \<Rightarrow> nat \<times> aria" where
  "walkToStart s = walkToPosition ARIA_START_POS s"

subsection \<open>The per-frame update\<close>

definition lookAtCamera :: "vec3 \<Rightarrow> real \<Rightarrow> real \<Rightarrow> aria \<Rightarrow> aria" where
  "lookAtCamera cameraPos delta speed s =
     (let dirToCamera = subVectors cameraPos (position s);
          targetAngle = atan2 (vx dirToCamera) (vz dirToCamera);
          res = dampRotation (rotY s) targetAngle speed delta
      in s\<lparr>rotY := dvalue res\<rparr>)"

definition updateIdle :: "real \<Rightarrow> real \<Rightarrow> vec3 \<Rightarrow> aria \<Rightarrow> aria" where
  "updateIdle elapsed delta cameraPos s0 =
     (let s = s0\<lparr>position := (position s0)\<lparr>vy := sin (elapsed * 0.7) * idleBreath\<rparr>\<rparr>;
          idleSway = sin (elapsed * 0.5) * swayAmplitude * 0.6;
          idleLean = sin (elapsed * 0.6) * leanAmplitude * 0.6;
          s = s\<lparr>rotZ := damp (rotZ s) idleSway 3.5 delta\<rparr>;
          s = s\<lparr>rotX := damp (rotX s) idleLean 3.5 delta\<rparr>
      in lookAtCamera cameraPos delta 1.4 s)"

definition updateTurningToTarget :: "real \<Rightarrow> aria \<Rightarrow> aria" where
  "updateTurningToTarget delta s0 =
     (let res = dampRotation (rotY s0) (targetRotation s0) turnSpeed delta;
          s = s0\<lparr>rotY := dvalue res\<rparr>;
          s = s\<lparr>rotX := damp (rotX s) 0 4 delta\<rparr>;
          s = s\<lparr>rotZ := damp (rotZ s) 0 4 delta\<rparr>
      in if finished res then s\<lparr>ariaState := Walking\<rparr> else s)"

text \<open>The progress of a walk, \<open>Math.min(1, walkElapsed / safeDuration)\<close>.\<close>

definition progressOf :: "real \<Rightarrow> real \<Rightarrow> real" where
  "progressOf elapsedWalk safeDuration = min 1 (elapsedWalk / safeDuration)"

definition updateWalking :: "real \<Rightarrow> real \<Rightarrow> aria \<Rightarrow> aria" where
  "updateWalking elapsed delta s0 =
     (let safeDuration = max (walkDuration s0) 0.001;
          s = s0\<lparr>walkElapsed := walkElapsed s0 + delta\<rparr>;
          s = s\<lparr>walkProgress := progressOf (walkElapsed s) safeDuration\<rparr>;
          eased = walkProgress s * walkProgress s * (3 - 2 * walkProgress s)
      in if walkProgress s \<ge> 1 then
           let s = s\<lparr>walkProgress := 1\<rparr>;
               s = s\<lparr>position := walkEndPos s\<rparr>;
               s = s\<lparr>position := (position s)\<lparr>vy := 0\<rparr>\<rparr>;
               s = s\<lparr>rotX := 0, rotZ := 0\<rparr>
           in s\<lparr>ariaState := TurningToCamera\<rparr>
         else
           let s = s\<lparr>position := lerpVectors (walkStartPos s) (walkEndPos s) eased\<rparr>;
               s = s\<lparr>stepPhase := stepPhase s + delta * bobFrequency * 1.15\<rparr>;
               stride = sin (stepPhase s);
               bob = \<bar>stride\<bar> * bobAmplitude;
               s = s\<lparr>position := (position s)\<lparr>vy := bob\<rparr>\<rparr>;
               s = s\<lparr>rotZ := stride * swayAmplitude\<rparr>;
               s = s\<lparr>rotX := sin (stepPhase s * 0.5) * leanAmplitude\<rparr>
           in if mixer s = None then s\<lparr>modelRotZ := stride * 0.01\<rparr> else s)"

definition updateTurningToCamera :: "real \<Rightarrow> vec3 \<Rightarrow> aria \<Rightarrow> aria" where
  "updateTurningToCamera delta cameraPos s0 =
     (let dirToCamera = subVectors cameraPos (position s0);
          targetAngle = atan2 (vx dirToCamera) (vz dirToCamera);
          res = dampRotation (rotY s0) targetAngle turnSpeed delta;
          s = s0\<lparr>rotY := dvalue res\<rparr>;
          s = s\<lparr>rotX := damp (rotX s) 0 4 delta\<rparr>;
          s = s\<lparr>rotZ := damp (rotZ s) 0 4 delta\<rparr>
      in if finished res then
           let s = s\<lparr>ariaState := Speaking\<rparr>;
               s = s\<lparr>rotX := 0, rotZ := 0\<rparr>;
               s = (if mixer s = None then s\<lparr>modelRotZ := 0\<rparr> else s)
           in (case onWalkComplete s of
                 Some cb \<Rightarrow> callWalkResolve cb (s\<lparr>onWalkComplete := None\<rparr>)
               | None \<Rightarrow> s)
         else s)"

definition updateSpeaking :: "real \<Rightarrow> real \<Rightarrow> vec3 \<Rightarrow> aria \<Rightarrow> aria" where
  "updateSpeaking elapsed delta cameraPos s0 =
     (let s = s0\<lparr>position := (position s0)\<lparr>vy := sin (elapsed * 0.8) * idleBreath\<rparr>\<rparr>;
          s = lookAtCamera cameraPos delta 1.1 s;
          speakLean = (if isSpeakingState s then sin (elapsed * 1.4) * leanAmplitude * 0.8 else 0);
          s = s\<lparr>rotX := damp (rotX s) speakLean 3.2 delta\<rparr>;
          s = s\<lparr>rotZ := damp (rotZ s) 0 3.2 delta\<rparr>
      in if mixer s = None then
           (if isSpeakingState s then s\<lparr>modelRotX := sin (elapsed * 2) * 0.01\<rparr>
            else s\<lparr>modelRotX := damp (modelRotX s) 0 5 delta\<rparr>)
         else s)"

definition updateLightState :: "real \<Rightarrow> aria \<Rightarrow> aria" where
  "updateLightState elapsed s0 =
     (let s = (if isSpeakingState s0
               then s0\<lparr>targetLightIntensity := 2.0 + sin (elapsed * 5) * 0.3\<rparr>
               else s0\<lparr>targetLightIntensity := 1.0\<rparr>);
          s = s\<lparr>lightIntensity :=
                 lightIntensity s + (targetLightIntensity s - lightIntensity s) * 0.1\<rparr>
      in s\<lparr>highlightIntensity := lightIntensity s * 3.0\<rparr>)"

text \<open>The time step of a frame, \<open>delta\<close> in \<open>updateARIA\<close>.\<close>

definition frameDelta :: "real \<Rightarrow> real \<Rightarrow> real" where
  "frameDelta elapsed lastUpdate =
     (let rawDelta = elapsed - lastUpdate
      in min 0.05 (if rawDelta > 0 then rawDelta else 0.016))"

definition updateARIA :: "real \<Rightarrow> vec3 \<Rightarrow> bool \<Rightarrow> aria \<Rightarrow> aria" where
  "updateARIA elapsed cameraPos isSpeaking s0 =
     (if \<not> ariaLoaded s0 then s0
      else
        let delta = frameDelta elapsed (lastUpdateTime s0);
            s = s0\<lparr>lastUpdateTime := elapsed\<rparr>;
            s = (case mixer s of Some t \<Rightarrow> s\<lparr>mixer := Some (t + delta)\<rparr> | None \<Rightarrow> s);
            s = s\<lparr>isSpeakingState := isSpeaking\<rparr>;
            s = s\<lparr>spotTargetPos := position s\<rparr>;
            s = (case ariaState s of
                   Idle \<Rightarrow> updateIdle elapsed delta cameraPos s
                 | TurningToTarget \<Rightarrow> updateTurningToTarget delta s
                 | Walking \<Rightarrow> updateWalking elapsed delta s
                 | TurningToCamera \<Rightarrow> updateTurningToCamera delta cameraPos s
                 | Speaking \<Rightarrow> updateSpeaking elapsed delta cameraPos s)
        in updateLightState elapsed s)"

definition resetToStart :: "aria \<Rightarrow> aria" where
  "resetToStart s =
     (if \<not> ariaLoaded s then s
      else
        let s = s\<lparr>ariaState := Idle, position := ARIA_START_POS, rotY := 0, rotX := 0, rotZ := 0\<rparr>;
            s = (if mixer s = None then s\<lparr>modelRotX := 0, modelRotZ := 0\<rparr> else s)
        in s\<lparr>lastUpdateTime := 0\<rparr>)"

definition getARIAPosition :: "aria \<Rightarrow> vec3" where
  "getARIAPosition s = (if ariaLoaded s then position s else ARIA_START_POS)"

subsection \<open>Runs of the avatar module\<close>

text \<open>What can happen to the module: the loader delivers the model (\<open>init\<close> calls
  \<open>loadARIA\<close> once), a call of \<open>walkToPosition\<close>, a frame, a timer of the window
  firing, a call of \<open>resetToStart\<close>.\<close>

datatype aria_event =
    Loaded bool
  | WalkTo vec3
  | Frame real vec3 bool
  | TimerFires nat
  | Reset

fun ariaStep :: "aria \<Rightarrow> aria_event \<Rightarrow> aria" where
  "ariaStep s (Loaded hasAnimations) = (if ariaLoaded s then s else loadARIA hasAnimations s)"
| "ariaStep s (WalkTo targetPos) = snd (walkToPosition targetPos s)"
| "ariaStep s (Frame elapsed cameraPos isSpeaking) = updateARIA elapsed cameraPos isSpeaking s"
| "ariaStep s (TimerFires h) = walkTimeout h s"
| "ariaStep s Reset = resetToStart s"

definition ariaRun :: "aria \<Rightarrow> aria_event list \<Rightarrow> aria" where
  "ariaRun s evs = foldl ariaStep s evs"

fun isWalkTo :: "aria_event \<Rightarrow> bool" where
  "isWalkTo (WalkTo _) = True"
| "isWalkTo _ = False"

subsection \<open>Notions used in the proofs about the avatar\<close>

text \<open>The part of \<open>updateARIA\<close> before the \<open>switch\<close>; the walk reaching
  progress 1 in a frame with time step \<open>d\<close>; the callback state of the module.\<close>

definition framePrelude :: "real \<Rightarrow> bool \<Rightarrow> aria \<Rightarrow> aria" where
  "framePrelude e sp s =
     (let d = frameDelta e (lastUpdateTime s);
          s1 = s\<lparr>lastUpdateTime := e\<rparr>;
          s1 = (case mixer s1 of Some t \<Rightarrow> s1\<lparr>mixer := Some (t + d)\<rparr> | None \<Rightarrow> s1);
          s1 = s1\<lparr>isSpeakingState := sp\<rparr>
      in s1\<lparr>spotTargetPos := position s1\<rparr>)"

definition walkArrives :: "real \<Rightarrow> aria \<Rightarrow> bool" where
  "walkArrives d s \<longleftrightarrow> 1 \<le> progressOf (walkElapsed s + d) (max (walkDuration s) 0.001)"

definition cbView ::
  "aria \<Rightarrow> (nat \<rightharpoonup> walk_timer) \<times> nat option \<times> walk_cb option \<times> walk_cb option
            \<times> nat \<times> nat \<times> nat \<times> (nat \<Rightarrow> nat) \<times> nat list" where
  "cbView s = (timers s, pendingWalkTimeout s, onWalkComplete s, pendingWalkResolve s,
               walkRequestId s, nextTimer s, nextPromise s, resolveCalls s, settledLog s)"

definition walkPlan :: "aria \<Rightarrow> bool \<times> real \<times> vec3 \<times> vec3" where
  "walkPlan s = (ariaLoaded s, walkDuration s, walkStartPos s, walkEndPos s)"

definition facingCamera :: "real \<Rightarrow> vec3 \<Rightarrow> aria \<Rightarrow> bool" where
  "facingCamera d c s =
     finished (dampRotation (rotY s)
        (atan2 (vx (subVectors c (position s))) (vz (subVectors c (position s)))) turnSpeed d)"

text \<open>The invariant of the callback state: an armed timer is the one remembered in
  \<open>pendingWalkTimeout\<close> and belongs to the current request; both callback variables hold
  the same closure, which is the current request's and whose promise is still pending;
  every promise created so far is either settled or the one the callback will resolve.\<close>

definition ariaInv :: "aria \<Rightarrow> bool" where
  "ariaInv s \<longleftrightarrow>
     (\<forall>h t. timers s h = Some t \<longrightarrow>
        h < nextTimer s \<and> pendingWalkTimeout s = Some h \<and> tRequestId t = walkRequestId s
        \<and> onWalkComplete s = Some \<lparr>cbRequestId = walkRequestId s, cbPromise = tPromise t\<rparr>)
   \<and> pendingWalkResolve s = onWalkComplete s
   \<and> (\<forall>cb. onWalkComplete s = Some cb \<longrightarrow>
        cbRequestId cb = walkRequestId s \<and> cbPromise cb < nextPromise s
        \<and> resolveCalls s (cbPromise cb) = 0)
   \<and> (\<forall>h. pendingWalkTimeout s = Some h \<longrightarrow> h < nextTimer s)
   \<and> (\<forall>p. nextPromise s \<le> p \<longrightarrow> resolveCalls s p = 0)
   \<and> (\<forall>p. p < nextPromise s \<and> resolveCalls s p = 0 \<longrightarrow>
        onWalkComplete s = Some \<lparr>cbRequestId = walkRequestId s, cbPromise = p\<rparr>)
   \<and> (\<forall>p. p \<in> set (settledLog s) \<longleftrightarrow> 0 < resolveCalls s p)
   \<and> distinct (settledLog s)"

definition cancelPendingWalk :: "aria \<Rightarrow> aria" where
  "cancelPendingWalk s0 =
     (let s = (case pendingWalkResolve s0 of
                 Some cb \<Rightarrow> (callWalkResolve cb s0)\<lparr>pendingWalkResolve := None\<rparr>
               | None \<Rightarrow> s0)
      in (case pendingWalkTimeout s of
            Some h \<Rightarrow> (clearTimeout h s)\<lparr>pendingWalkTimeout := None\<rparr>
          | None \<Rightarrow> s))"

definition startWalk :: "vec3 \<Rightarrow> nat \<Rightarrow> aria \<Rightarrow> nat \<times> aria" where
  "startWalk targetPos p s0 =
          (let s = s0\<lparr>walkRequestId := walkRequestId s0 + 1\<rparr>;
               requestId = walkRequestId s;
               cb = \<lparr>cbRequestId = requestId, cbPromise = p\<rparr>;
               s = s\<lparr>pendingWalkResolve := Some cb\<rparr>;
               s = s\<lparr>onWalkComplete := pendingWalkResolve s\<rparr>;
               s = s\<lparr>walkStartPos := position s\<rparr>;
               s = s\<lparr>walkEndPos := targetPos\<rparr>;
               s = s\<lparr>walkEndPos := (walkEndPos s)\<lparr>vy := 0\<rparr>\<rparr>;
               s = s\<lparr>walkProgress := 0, walkElapsed := 0, stepPhase := 0\<rparr>;
               walkDistance = distanceTo (walkStartPos s) (walkEndPos s);
               s = s\<lparr>walkDuration := max 3.6 (walkDistance / walkSpeed)\<rparr>;
               safetyTimeoutMs = max 8000 (walkDuration s * 1500);
               (h, s) = setTimeout \<lparr>tRequestId = requestId, tPromise = p,
                                     tDelayMs = safetyTimeoutMs\<rparr> s;
               s = s\<lparr>pendingWalkTimeout := Some h\<rparr>;
               dirToTarget = subVectors (walkEndPos s) (position s);
               s = s\<lparr>targetRotation := atan2 (vx dirToTarget) (vz dirToTarget)\<rparr>
           in (p, s\<lparr>ariaState := TurningToTarget\<rparr>))"

definition walkTimer :: "vec3 \<Rightarrow> aria \<Rightarrow> walk_timer" where
  "walkTimer targetPos s =
     \<lparr>tRequestId = walkRequestId s + 1, tPromise = nextPromise s,
      tDelayMs = max 8000 (max 3.6 (distanceTo (position s) (targetPos\<lparr>vy := 0\<rparr>) / walkSpeed) * 1500)\<rparr>"

definition callsAfterCancel :: "aria \<Rightarrow> nat \<Rightarrow> nat" where
  "callsAfterCancel s =
     (case onWalkComplete s of None \<Rightarrow> resolveCalls s
      | Some cb \<Rightarrow> (resolveCalls s)(cbPromise cb := 1))"

definition logAfterCancel :: "aria \<Rightarrow> nat list" where
  "logAfterCancel s =
     (case onWalkComplete s of None \<Rightarrow> settledLog s
      | Some cb \<Rightarrow> settledLog s @ [cbPromise cb])"

definition ticks :: "real \<Rightarrow> real \<Rightarrow> nat \<Rightarrow> vec3 \<Rightarrow> bool \<Rightarrow> aria_event list" where
  "ticks t0 dt n c sp = map (\<lambda>k. Frame (t0 + real (Suc k) * dt) c sp) [0..<n]"

definition ariaReady :: aria where
  "ariaReady = ariaRun ariaModule [Loaded True]"

definition aheadFrames :: "aria_event list" where
  "aheadFrames = Frame 0.04 (vec 0 1.5 6) False # ticks 0.04 0.04 89 (vec 0 1.5 6) False"

definition exampleStart :: aria where
  "exampleStart = ariaReady\<lparr>rotY := pi\<rparr>"

definition exampleFrames :: "aria_event list" where
  "exampleFrames = Frame 0.04 (vec 0 1.5 6) False # ticks 0.04 0.04 159 (vec 0 1.5 6) False"


text \<open>The angle \<open>targetAngle\<close> of \<open>lookAtCamera\<close> and \<open>updateTurningToCamera\<close>: the
  bearing of the camera seen from the avatar.\<close>

definition cameraBearing :: "vec3 \<Rightarrow> aria \<Rightarrow> real" where
  "cameraBearing c s = atan2 (vx (subVectors c (position s))) (vz (subVectors c (position s)))"

text \<open>While a walk's callback is registered the avatar is neither idle nor speaking
  and the timer remembered in \<open>pendingWalkTimeout\<close> is armed.\<close>

definition walkGuarded :: "aria \<Rightarrow> bool" where
  "walkGuarded s \<longleftrightarrow>
     (onWalkComplete s \<noteq> None \<longrightarrow>
        ariaState s \<noteq> Idle \<and> ariaState s \<noteq> Speaking
        \<and> (\<exists>h. pendingWalkTimeout s = Some h \<and> timers s h \<noteq> None))"


section \<open>The camera controller (camera.js)\<close>

subsection \<open>Vectors, product data\<close>

definition addVectors :: "vec3 \<Rightarrow> vec3 \<Rightarrow> vec3" where
  "addVectors a b = vec (vx a + vx b) (vy a + vy b) (vz a + vz b)"

definition multiplyScalar :: "vec3 \<Rightarrow> real \<Rightarrow> vec3" where
  "multiplyScalar a k = vec (vx a * k) (vy a * k) (vz a * k)"

definition lengthOf :: "vec3 \<Rightarrow> real" where
  "lengthOf a = sqrt (vx a * vx a + vy a * vy a + vz a * vz a)"

definition clamp :: "real \<Rightarrow> real \<Rightarrow> real \<Rightarrow> real" where
  "clamp v lo hi = max lo (min hi v)"

text \<open>\<open>PRODUCT_POSITIONS[name] || new THREE.Vector3()\<close> of product.js.\<close>

definition getProductPosition :: "string \<Rightarrow> vec3" where
  "getProductPosition name =
     (if name = ''elegance'' then vec (-6) 0 (-5)
      else if name = ''minimal'' then vec 0 0 (-5)
      else if name = ''luxury'' then vec 6 0 (-5)
      else vec 0 0 0)"

text \<open>What \<open>getProductBounds\<close> of product.js returns for a collection whose model has
  been loaded; the bounds are measured on the loaded models, so the function from names
  to bounds is a datum of the environment.\<close>

record product_bounds =
  boundsSize :: vec3
  boundsCenter :: vec3
  boundsRadius :: real

subsection \<open>State of the controller\<close>

text \<open>
  The completion callback of a tour is either a function handed in by the caller
  (identified by a number), or the closure \<open>onComplete\<close> built by \<open>playTour\<close>, which
  captures the caller's \<open>options.onComplete\<close>, if any, and the \<open>resolve\<close> of the promise
  \<open>playTour\<close> returns.
\<close>

datatype tour_callback =
    Callback nat
  | PlayTourComplete "nat option" nat

text \<open>
  The two animations \<open>transitionTo\<close> starts with \<open>gsap.to\<close>: for \<open>return_start\<close> a
  tween of \<open>camera.position\<close> to the final position, with an \<open>onUpdate\<close> and no
  \<open>onComplete\<close>; otherwise a tween of a private object \<open>{t: 0}\<close> along the two curves,
  with \<open>onComplete: finish\<close>. The closure \<open>finish\<close> of a call is identified by the promise
  whose \<open>resolve\<close> it captures.
\<close>

datatype tween =
    PositionTween vec3 real
  | CurveTween "vec3 list" "vec3 list" real nat

fun tweenOfPosition :: "tween \<Rightarrow> bool" where
  "tweenOfPosition (PositionTween _ _) = True"
| "tweenOfPosition (CurveTween _ _ _ _) = False"

fun tweenOnComplete :: "tween \<Rightarrow> nat option" where
  "tweenOnComplete (PositionTween _ _) = None"
| "tweenOnComplete (CurveTween _ _ _ p) = Some p"

text \<open>
  The fields of \<open>CameraController\<close>, with \<open>camPosition\<close> for \<open>camera.position\<close>,
  \<open>camLookAt\<close> for the point last given to \<open>camera.lookAt\<close>, and the fields of
  \<open>controls\<close> that the controller writes. The environment of the controller is part of
  the state: \<open>gsap\<close> says whether the global \<open>gsap\<close> is defined, \<open>camTweens\<close> holds the
  live tweens by handle, \<open>finishTimers\<close> the armed \<open>setTimeout(finish, ...)\<close> timers
  with the promise of their \<open>finish\<close> and their delay, \<open>bounds\<close> is \<open>getProductBounds\<close>.
  Promises are numbered in the order they are created; \<open>camResolveCalls p\<close> counts the
  calls of the \<open>resolve\<close> function of promise \<open>p\<close>, \<open>camSettledLog\<close> lists the promises
  in the order they settle, \<open>callbackLog\<close> the caller's tour callbacks in the order they
  are invoked. \<open>controls.update()\<close> of the OrbitControls library and
  \<open>activateProductSpotlight\<close>, which only touches the spotlight of product.js, are left
  out.
\<close>

record camera =
  camPosition :: vec3
  camLookAt :: vec3
  currentTarget :: vec3
  isTransitioning :: bool
  isFollowingARIA :: bool
  isOrbiting :: bool
  isTouring :: bool
  tourPath :: "(vec3 list \<times> bool) option"
  tourLookPath :: "(vec3 list \<times> bool) option"
  tourTime :: real
  tourDuration :: real
  tourLoop :: bool
  tourBlend :: real
  onTourComplete :: "tour_callback option"
  transitionResolve :: "nat option"
  transitionTween :: "nat option"
  lastAriaPos :: vec3
  ariaVelocity :: vec3
  orbitTarget :: vec3
  controlsEnabled :: bool
  controlsTarget :: vec3
  controlsMinDistance :: real
  controlsMaxDistance :: real
  controlsMinPolarAngle :: real
  controlsMaxPolarAngle :: real
  gsap :: bool
  camTweens :: "nat \<rightharpoonup> tween"
  finishTimers :: "nat \<rightharpoonup> nat \<times> real"
  camNextHandle :: nat
  camNextPromise :: nat
  camResolveCalls :: "nat \<Rightarrow> nat"
  camSettledLog :: "nat list"
  callbackLog :: "nat list"
  bounds :: "string \<Rightarrow> product_bounds option"

text \<open>The constructor; \<open>CAMERA_POSITIONS.start\<close> is position (0, 1.5, 6), look-at
  (0, 1, 0).\<close>

definition newCameraController :: "bool \<Rightarrow> (string \<Rightarrow> product_bounds option) \<Rightarrow> camera" where
  "newCameraController gsapDefined getProductBounds =
     \<lparr>camPosition = vec 0 1.5 6, camLookAt = vec 0 1 0, currentTarget = vec 0 1 0,
      isTransitioning = False, isFollowingARIA = False, isOrbiting = False,
      isTouring = False, tourPath = None, tourLookPath = None, tourTime = 0,
      tourDuration = 18, tourLoop = True, tourBlend = 0.08, onTourComplete = None,
      transitionResolve = None, transitionTween = None, lastAriaPos = vec 0 0 0,
      ariaVelocity = vec 0 0 0, orbitTarget = vec 0 0 0, controlsEnabled = False,
      controlsTarget = vec 0 0 0, controlsMinDistance = 2.2, controlsMaxDistance = 7,
      controlsMinPolarAngle = pi / 6, controlsMaxPolarAngle = pi / 2 - 0.08,
      gsap = gsapDefined, camTweens = Map.empty, finishTimers = Map.empty,
      camNextHandle = 1, camNextPromise = 0, camResolveCalls = (\<lambda>_. 0),
      camSettledLog = [], callbackLog = [], bounds = getProductBounds\<rparr>"

subsection \<open>Promises, tweens and timers\<close>

definition camResolve :: "nat \<Rightarrow> camera \<Rightarrow> camera" where
  "camResolve p s =
     s\<lparr>camResolveCalls := (camResolveCalls s)(p := camResolveCalls s p + 1),
       camSettledLog := (if p \<in> set (camSettledLog s) then camSettledLog s
                         else camSettledLog s @ [p])\<rparr>"

text \<open>\<open>gsap.killTweensOf(this.camera.position)\<close> removes the tweens of that object;
  no tween of this code animates \<open>currentTarget\<close>, so
  \<open>gsap.killTweensOf(this.currentTarget)\<close> removes nothing. A killed tween is gone: it
  calls neither \<open>onUpdate\<close> nor \<open>onComplete\<close> any more.\<close>

definition killTweensOfPosition :: "camera \<Rightarrow> camera" where
  "killTweensOfPosition s =
     s\<lparr>camTweens := (\<lambda>h. case camTweens s h of
                             Some tw \<Rightarrow> if tweenOfPosition tw then None else Some tw
                           | None \<Rightarrow> None)\<rparr>"

definition killTween :: "nat \<Rightarrow> camera \<Rightarrow> camera" where
  "killTween h s = s\<lparr>camTweens := (camTweens s)(h := None)\<rparr>"

definition gsapTo :: "tween \<Rightarrow> camera \<Rightarrow> nat \<times> camera" where
  "gsapTo tw s =
     (camNextHandle s,
      s\<lparr>camTweens := (camTweens s)(camNextHandle s \<mapsto> tw), camNextHandle := camNextHandle s + 1\<rparr>)"

definition setFinishTimeout :: "nat \<Rightarrow> real \<Rightarrow> camera \<Rightarrow> camera" where
  "setFinishTimeout p ms s =
     s\<lparr>finishTimers := (finishTimers s)(camNextHandle s \<mapsto> (p, ms)),
       camNextHandle := camNextHandle s + 1\<rparr>"

subsection \<open>Follow and orbit modes\<close>

text \<open>\<open>ariaPos\<close> is what \<open>getARIAPosition()\<close> returns at the time of the call.\<close>

definition followARIA :: "bool \<Rightarrow> vec3 \<Rightarrow> camera \<Rightarrow> camera" where
  "followARIA active ariaPos s0 =
     (if isOrbiting s0 then s0
      else
        let s = s0\<lparr>isFollowingARIA := active\<rparr>
        in if active then s\<lparr>lastAriaPos := ariaPos, ariaVelocity := vec 0 0 0\<rparr> else s)"

record orbit_options =
  optRadius :: "real option"
  optMinDistance :: "real option"
  optMaxDistance :: "real option"
  optPolarRange :: "real option"

definition enableOrbitMode :: "vec3 \<Rightarrow> orbit_options \<Rightarrow> camera \<Rightarrow> camera" where
  "enableOrbitMode targetPosition options s0 =
     (let s = s0\<lparr>isOrbiting := True, isFollowingARIA := False, isTransitioning := False\<rparr>;
          s = s\<lparr>controlsEnabled := True\<rparr>;
          s = s\<lparr>orbitTarget := targetPosition\<rparr>;
          s = s\<lparr>controlsTarget := orbitTarget s\<rparr>;
          radius = (case optRadius options of Some r \<Rightarrow> r | None \<Rightarrow> 2.8);
          minDistance = (case optMinDistance options of
                           Some d \<Rightarrow> d | None \<Rightarrow> max 1.3 (radius + 0.25));
          maxDistance = (case optMaxDistance options of
                           Some d \<Rightarrow> d | None \<Rightarrow> max (minDistance + 4.5) (radius + 8));
          s = s\<lparr>controlsMinDistance := minDistance\<rparr>;
          s = s\<lparr>controlsMaxDistance := maxDistance\<rparr>;
          offset = subVectors (camPosition s) (orbitTarget s);
          offsetLength = max (lengthOf offset) 0.001;
          polarAngle = arccos (clamp (vy offset / offsetLength) (-1) 1);
          range = (case optPolarRange options of Some r \<Rightarrow> r | None \<Rightarrow> 0.16);
          s = s\<lparr>controlsMinPolarAngle := max 0.45 (polarAngle - range)\<rparr>
      in s\<lparr>controlsMaxPolarAngle := min (pi / 2 - 0.08) (polarAngle + range)\<rparr>)"

definition disableOrbitMode :: "camera \<Rightarrow> camera" where
  "disableOrbitMode s =
     s\<lparr>isOrbiting := False, controlsEnabled := False, currentTarget := controlsTarget s\<rparr>"

subsection \<open>Cancelling a transition\<close>

text \<open>The body of the closure \<open>finish\<close> of the \<open>transitionTo\<close> call that returned
  promise \<open>p\<close>.\<close>

definition callFinish :: "nat \<Rightarrow> camera \<Rightarrow> camera" where
  "callFinish p s =
     (if transitionResolve s = None then s
      else camResolve p
             (s\<lparr>transitionResolve := None, isTransitioning := False, transitionTween := None\<rparr>))"

definition cancelTransition :: "camera \<Rightarrow> camera" where
  "cancelTransition s0 =
     (let s = (if gsap s0 then
                 let s = killTweensOfPosition s0
                 in (case transitionTween s of Some h \<Rightarrow> killTween h s | None \<Rightarrow> s)
               else s0);
          s = s\<lparr>transitionTween := None\<rparr>
      in case transitionResolve s of
           Some done \<Rightarrow>
             let s = s\<lparr>transitionResolve := None\<rparr>;
                 s = s\<lparr>isTransitioning := False\<rparr>
             in callFinish done s
         | None \<Rightarrow> s)"

subsection \<open>Tours\<close>

text \<open>Calling a tour callback. A caller's callback is recorded in \<open>callbackLog\<close>; it is
  taken not to call back into the controller.\<close>

definition callTourCallback :: "tour_callback \<Rightarrow> camera \<Rightarrow> camera" where
  "callTourCallback cb s =
     (case cb of
        Callback k \<Rightarrow> s\<lparr>callbackLog := callbackLog s @ [k]\<rparr>
      | PlayTourComplete inner p \<Rightarrow>
          camResolve p (case inner of
                          Some k \<Rightarrow> s\<lparr>callbackLog := callbackLog s @ [k]\<rparr>
                        | None \<Rightarrow> s))"

record 'c tour_options =
  optLoop :: "bool option"
  optDuration :: "real option"
  optBlend :: "real option"
  optOnComplete :: "'c option"

text \<open>A curve \<open>new THREE.CatmullRomCurve3(points, closed, ...)\<close> is kept as its control
  points and its \<open>closed\<close> flag.\<close>

definition startTour ::
  "vec3 list \<Rightarrow> vec3 list \<Rightarrow> tour_callback tour_options \<Rightarrow> camera \<Rightarrow> camera" where
  "startTour pathPoints lookPoints options s0 =
     (let s = (if isOrbiting s0 then disableOrbitMode s0 else s0);
          s = cancelTransition s;
          s = s\<lparr>isTouring := True, isFollowingARIA := False, isTransitioning := False,
                controlsEnabled := False\<rparr>;
          s = s\<lparr>tourLoop := (case optLoop options of Some l \<Rightarrow> l | None \<Rightarrow> True)\<rparr>;
          s = s\<lparr>tourPath := Some (pathPoints, tourLoop s)\<rparr>;
          s = s\<lparr>tourLookPath := Some (lookPoints, tourLoop s)\<rparr>;
          s = s\<lparr>tourDuration := (case optDuration options of Some d \<Rightarrow> d | None \<Rightarrow> 18)\<rparr>;
          s = s\<lparr>tourBlend := (case optBlend options of Some b \<Rightarrow> b | None \<Rightarrow> 0.08)\<rparr>;
          s = s\<lparr>tourTime := 0\<rparr>;
          s = s\<lparr>onTourComplete := (if tourLoop s then None else optOnComplete options)\<rparr>
      in if gsap s then killTweensOfPosition s else s)"

definition stopTour :: "camera \<Rightarrow> camera" where
  "stopTour s0 =
     (if \<not> isTouring s0 then s0
      else
        let s = s0\<lparr>isTouring := False\<rparr>
        in case onTourComplete s of
             Some done \<Rightarrow> callTourCallback done (s\<lparr>onTourComplete := None\<rparr>)
           | None \<Rightarrow> s)"

text \<open>\<open>playTour\<close> returns the new promise together with the new state; the caller's
  \<open>options.onComplete\<close>, if there is one, is a function of the caller.\<close>

definition playTour ::
  "vec3 list \<Rightarrow> vec3 list \<Rightarrow> nat tour_options \<Rightarrow> camera \<Rightarrow> nat \<times> camera" where
  "playTour pathPoints lookPoints options s0 =
     (let p = camNextPromise s0;
          s = s0\<lparr>camNextPromise := p + 1\<rparr>;
          onComplete = PlayTourComplete (optOnComplete options) p
      in (p, startTour pathPoints lookPoints
               \<lparr>optLoop = Some (case optLoop options of Some l \<Rightarrow> l | None \<Rightarrow> False),
                optDuration = optDuration options, optBlend = optBlend options,
                optOnComplete = Some onComplete\<rparr> s))"

definition startShowroomTour ::
  "vec3 list option \<Rightarrow> vec3 list option \<Rightarrow> tour_callback tour_options \<Rightarrow> camera \<Rightarrow> camera" where
  "startShowroomTour path lookPath options s =
     (let start = camPosition s;
          pathPoints = (case path of
                          Some ps \<Rightarrow> ps
                        | None \<Rightarrow> [start, vec 3.6 1.8 5.1, vec 5.2 1.6 1.5, vec 2.2 1.4 (-2.8),
                                   vec (-2.8) 1.5 (-1.0), vec (-3.6) 1.8 3.8]);
          lookPoints = (case lookPath of
                          Some ps \<Rightarrow> ps
                        | None \<Rightarrow> [vec 0 1.1 (-1.5), vec 0.6 1.05 (-3.8), vec 0.2 1.0 (-5.2),
                                   vec (-0.8) 1.05 (-4.2), vec 0 1.1 (-2.0)])
      in startTour pathPoints lookPoints options s)"

definition stopShowroomTour :: "camera \<Rightarrow> camera" where
  "stopShowroomTour s = (let s = s\<lparr>isTouring := False\<rparr> in s\<lparr>onTourComplete := None\<rparr>)"

subsection \<open>The product cinematic\<close>

record cinematic_options =
  cinRadius :: "real option"
  cinHeight :: "real option"
  cinSegments :: "nat option"
  cinDuration :: "real option"
  cinBlend :: "real option"

text \<open>The loop \<open>for (let i = 0; i <= segments; i++) { ... pathPoints.push(...) }\<close>.
  For \<open>segments = 0\<close> JavaScript computes \<open>0 / 0 = NaN\<close>, which the reals do not have:
  what is proved below about the points is proved for a positive \<open>segments\<close>.\<close>

function orbitLoop ::
  "nat \<Rightarrow> nat \<Rightarrow> real \<Rightarrow> vec3 \<Rightarrow> real \<Rightarrow> real \<Rightarrow> vec3 list \<Rightarrow> vec3 list" where
  "orbitLoop i segments startAngle target radius height pathPoints =
     (if i \<le> segments then
        let angle = startAngle + (pi * 2 * (real i / real segments));
            lift = sin (real i / real segments * pi * 2) * 0.2
        in orbitLoop (i + 1) segments startAngle target radius height
             (pathPoints @ [vec (vx target + cos angle * radius) (height + lift)
                                (vz target + sin angle * radius)])
      else pathPoints)"
  by pat_completeness auto
termination
  by (relation "measure (\<lambda>(i, segments, _). segments + 1 - i)") auto

declare orbitLoop.simps [simp del]

text \<open>The body of \<open>playProductCinematic\<close> up to its \<open>return\<close>: the points of the
  camera path and of the look-at path.\<close>

definition cinematicShot :: "string \<Rightarrow> cinematic_options \<Rightarrow> camera \<Rightarrow> vec3 list \<times> vec3 list" where
  "cinematicShot collectionName options s =
     (let productBounds = bounds s collectionName;
          target = (case productBounds of
                      Some b \<Rightarrow> boundsCenter b | None \<Rightarrow> getProductPosition collectionName);
          target = target\<lparr>vy := max 0.5 (vy target)\<rparr>;
          baseRadius = (case productBounds of
                          Some b \<Rightarrow> max 3.4 (boundsRadius b + 1.4) | None \<Rightarrow> 4.8);
          radius = (case cinRadius options of Some r \<Rightarrow> r | None \<Rightarrow> baseRadius);
          height = (case cinHeight options of
                      Some h \<Rightarrow> h
                    | None \<Rightarrow> (case productBounds of
                                 Some b \<Rightarrow> max 1.1 (vy target + vy (boundsSize b) * 0.24)
                               | None \<Rightarrow> 1.5));
          segments = (case cinSegments options of Some n \<Rightarrow> n | None \<Rightarrow> 7);
          startAngle = atan2 (vz (camPosition s) - vz target) (vx (camPosition s) - vx target);
          radius = (if \<bar>vx target\<bar> > 4 then max baseRadius (min radius 3.8) else radius);
          pathPoints = orbitLoop 0 segments startAngle target radius height [camPosition s];
          lookPoints = map (\<lambda>idx. vec (vx target + sin (real idx * 0.6) * 0.12)
                                     (vy target + (case productBounds of
                                                     Some b \<Rightarrow> min 1.0 (vy (boundsSize b) * 0.25)
                                                   | None \<Rightarrow> 0.9))
                                     (vz target + cos (real idx * 0.5) * 0.12))
                         [0..<length pathPoints]
      in (pathPoints, lookPoints))"

definition playProductCinematic ::
  "string \<Rightarrow> cinematic_options \<Rightarrow> camera \<Rightarrow> nat \<times> camera" where
  "playProductCinematic collectionName options s =
     (let (pathPoints, lookPoints) = cinematicShot collectionName options s
      in playTour pathPoints lookPoints
           \<lparr>optLoop = Some False,
            optDuration = Some (case cinDuration options of Some d \<Rightarrow> d | None \<Rightarrow> 12),
            optBlend = Some (case cinBlend options of Some b \<Rightarrow> b | None \<Rightarrow> 0.1),
            optOnComplete = None\<rparr> s)"

subsection \<open>transitionTo\<close>

text \<open>The calls of \<open>transitionTo(type, duration, arg1, arg2)\<close> by their \<open>type\<close>:
  \<open>'start'\<close>, \<open>'product_with_aria'\<close> with the collection name in \<open>arg1\<close>, \<open>'custom'\<close>
  with a position in \<open>arg1\<close> and a look-at point in \<open>arg2\<close>, \<open>'return_start'\<close>, and any
  other string; \<open>None\<close> is an argument left \<open>null\<close>.\<close>

datatype transition_request =
    Start
  | ProductWithAria "string option"
  | Custom "vec3 option" "vec3 option"
  | ReturnStart
  | OtherType

fun isReturnStart :: "transition_request \<Rightarrow> bool" where
  "isReturnStart ReturnStart = True"
| "isReturnStart _ = False"

text \<open>The final position and look-at point of a transition (both start as the zero
  vector).\<close>

definition transitionGoal :: "transition_request \<Rightarrow> camera \<Rightarrow> vec3 \<times> vec3" where
  "transitionGoal request s =
     (case request of
        Start \<Rightarrow> (vec 0 1.5 6, vec 0 1 0)
      | ProductWithAria arg1 \<Rightarrow>
          let collectionName = (case arg1 of
                                  Some n \<Rightarrow> if n = [] then ''elegance'' else n
                                | None \<Rightarrow> ''elegance'');
              productBounds = bounds s collectionName;
              productPos = (case productBounds of
                              Some b \<Rightarrow> boundsCenter b
                            | None \<Rightarrow> getProductPosition collectionName);
              productPos = productPos\<lparr>vy := max 0.5 (vy productPos)\<rparr>;
              radius = (case productBounds of Some b \<Rightarrow> boundsRadius b | None \<Rightarrow> 2.8);
              finalLookAt = productPos;
              lookLift = (case productBounds of
                            Some b \<Rightarrow> min 1.0 (max 0.5 (vy (boundsSize b) * 0.22))
                          | None \<Rightarrow> 0.8);
              finalLookAt = finalLookAt\<lparr>vy := vy finalLookAt + lookLift\<rparr>;
              distance = max 4.6 (radius + 3.2);
              finalPosition = vec (vx productPos) (max 1.0 (vy productPos + 0.6))
                                  (vz productPos + distance);
              sideShift = (case productBounds of
                             Some b \<Rightarrow> min 1.6 (max 0.8 (radius * 0.35)) | None \<Rightarrow> 1.5);
              finalPosition =
                (if collectionName = ''elegance''
                 then finalPosition\<lparr>vx := vx finalPosition + sideShift\<rparr>
                 else if collectionName = ''luxury''
                 then finalPosition\<lparr>vx := vx finalPosition - sideShift\<rparr>
                 else finalPosition)
          in (finalPosition, finalLookAt)
      | Custom arg1 arg2 \<Rightarrow>
          ((case arg1 of Some v \<Rightarrow> v | None \<Rightarrow> vec 0 0 0),
           (case arg2 of Some v \<Rightarrow> v | None \<Rightarrow> vec 0 0 0))
      | ReturnStart \<Rightarrow> (vec 0 0.5 3.5, vec 0 0 0)
      | OtherType \<Rightarrow> (vec 0 0 0, vec 0 0 0))"

text \<open>The control points of the two curves of a transition that is not a
  \<open>return_start\<close>.\<close>

definition transitionCurves ::
  "vec3 \<Rightarrow> vec3 \<Rightarrow> vec3 \<Rightarrow> vec3 \<Rightarrow> vec3 list \<times> vec3 list" where
  "transitionCurves startPosition startLookAt finalPosition finalLookAt =
     (let direction = subVectors finalPosition startPosition;
          distance = lengthOf direction;
          side = vec (- vz direction) 0 (vx direction);
          side = (if vx side * vx side + vy side * vy side + vz side * vz side > 0
                  then multiplyScalar side (1 / lengthOf side) else side);
          midPos = lerpVectors startPosition finalPosition 0.5;
          arcOffset = min 1.2 (distance * 0.15);
          lift = min 0.6 (distance * 0.08);
          midPos = addVectors midPos (multiplyScalar side arcOffset);
          midPos = midPos\<lparr>vy := vy midPos + lift\<rparr>;
          lookMid = lerpVectors startLookAt finalLookAt 0.5;
          lookMid = lookMid\<lparr>vy := vy lookMid + min 0.4 (distance * 0.05)\<rparr>
      in ([startPosition, midPos, finalPosition], [startLookAt, lookMid, finalLookAt]))"

text \<open>\<open>transitionTo\<close> returns the new promise together with the new state.\<close>

definition transitionTo :: "transition_request \<Rightarrow> real \<Rightarrow> camera \<Rightarrow> nat \<times> camera" where
  "transitionTo request duration s0 =
     (let s = (if isOrbiting s0 then disableOrbitMode s0 else s0);
          s = s\<lparr>isTouring := False\<rparr>;
          s = s\<lparr>onTourComplete := None\<rparr>;
          s = cancelTransition s;
          p = camNextPromise s;
          s = s\<lparr>camNextPromise := p + 1\<rparr>;
          startPosition = camPosition s;
          startLookAt = currentTarget s;
          s = s\<lparr>isTransitioning := True\<rparr>;
          s = s\<lparr>isFollowingARIA := False\<rparr>;
          s = s\<lparr>transitionResolve := Some p\<rparr>;
          (finalPosition, finalLookAt) = transitionGoal request s
      in if gsap s then
           (if isReturnStart request then
              let (h, s) = gsapTo (PositionTween finalPosition duration) s;
                  s = s\<lparr>transitionTween := Some h\<rparr>
              in (p, setFinishTimeout p (duration * 1000) s)
            else
              let (posCurve, lookCurve) =
                    transitionCurves startPosition startLookAt finalPosition finalLookAt;
                  (h, s) = gsapTo (CurveTween posCurve lookCurve duration p) s
              in (p, s\<lparr>transitionTween := Some h\<rparr>))
         else
           let s = s\<lparr>camPosition := finalPosition\<rparr>;
               s = s\<lparr>camLookAt := finalLookAt\<rparr>;
               s = s\<lparr>currentTarget := finalLookAt\<rparr>
           in (p, callFinish p s))"

record frame_options =
  frDistance :: "real option"
  frHeight :: "real option"
  frLookLift :: "real option"
  frDuration :: "real option"

definition frameAriaAndProduct ::
  "string \<Rightarrow> frame_options \<Rightarrow> vec3 \<Rightarrow> camera \<Rightarrow> nat \<times> camera" where
  "frameAriaAndProduct collectionName options ariaPos s =
     (let productBounds = bounds s collectionName;
          productPos = (case productBounds of
                          Some b \<Rightarrow> boundsCenter b | None \<Rightarrow> getProductPosition collectionName);
          productPos = productPos\<lparr>vy := max 0.5 (vy productPos)\<rparr>;
          mid = lerpVectors ariaPos productPos 0.5;
          spacing = distanceTo ariaPos productPos;
          radius = (case productBounds of Some b \<Rightarrow> boundsRadius b | None \<Rightarrow> 2.8);
          distance = (case frDistance options of
                        Some d \<Rightarrow> d | None \<Rightarrow> max 5.4 (spacing + radius + 3.2));
          sideBias = vx ariaPos - vx productPos;
          sideShift = clamp (- sideBias * 0.6) (-1.4) 1.4;
          camPos = vec (vx mid + sideShift) (vy mid) (vz mid + distance);
          camPos = camPos\<lparr>vy := (case frHeight options of
                                    Some h \<Rightarrow> h | None \<Rightarrow> max 1.2 (vy mid + 1.15))\<rparr>;
          lookAt = mid;
          lift = (case productBounds of
                    Some b \<Rightarrow> min 1.1 (max 0.7 (vy (boundsSize b) * 0.22)) | None \<Rightarrow> 0.85);
          lookAt = lookAt\<lparr>vy := vy lookAt + (case frLookLift options of
                                                 Some l \<Rightarrow> l | None \<Rightarrow> lift)\<rparr>
      in transitionTo (Custom (Some camPos) (Some lookAt))
           (case frDuration options of Some d \<Rightarrow> d | None \<Rightarrow> 1.4) s)"

subsection \<open>The per-frame update\<close>

text \<open>JavaScript's \<open>rawT % 1\<close>: the remainder has the sign of \<open>rawT\<close>.\<close>

definition mod1 :: "real \<Rightarrow> real" where
  "mod1 x = (if 0 \<le> x then x - of_int \<lfloor>x\<rfloor> else x - of_int \<lceil>x\<rceil>)"

text \<open>\<open>update(delta)\<close>. \<open>ariaPos\<close> is what \<open>getARIAPosition()\<close> returns; \<open>tourPos\<close> and
  \<open>tourLook\<close> are the points that \<open>getPointAt(t)\<close> of the three.js curves \<open>tourPath\<close> and
  \<open>tourLookPath\<close> return for the \<open>t\<close> of this frame.\<close>

definition update :: "real \<Rightarrow> vec3 \<Rightarrow> (real \<Rightarrow> vec3) \<Rightarrow> (real \<Rightarrow> vec3) \<Rightarrow> camera \<Rightarrow> camera" where
  "update delta ariaPos tourPathAt tourLookPathAt s0 =
     (if isOrbiting s0 then s0\<lparr>controlsTarget := orbitTarget s0\<rparr>
      else if isTouring s0 then
        (if tourPath s0 = None \<or> tourLookPath s0 = None then s0
         else
           let s = s0\<lparr>tourTime := tourTime s0 + delta\<rparr>;
               duration = max (tourDuration s) 0.1;
               rawT = tourTime s / duration;
               t = (if tourLoop s then mod1 rawT else min rawT 1);
               tourPos = tourPathAt t;
               tourLook = tourLookPathAt t;
               blend = tourBlend s;
               s = s\<lparr>camPosition := lerpVectors (camPosition s) tourPos blend\<rparr>;
               s = s\<lparr>currentTarget := lerpVectors (currentTarget s) tourLook (blend + 0.02)\<rparr>;
               s = s\<lparr>camLookAt := currentTarget s\<rparr>
           in if \<not> tourLoop s \<and> rawT \<ge> 1 then
                let s = s\<lparr>isTouring := False\<rparr>
                in (case onTourComplete s of
                      Some done \<Rightarrow> callTourCallback done (s\<lparr>onTourComplete := None\<rparr>)
                    | None \<Rightarrow> s)
              else s)
      else if isFollowingARIA s0 \<and> \<not> isTransitioning s0 then
        let safeDelta = max delta 0.001;
            velocity = multiplyScalar (subVectors ariaPos (lastAriaPos s0)) (1 / safeDelta);
            s = s0\<lparr>ariaVelocity := lerpVectors (ariaVelocity s0) velocity 0.12\<rparr>;
            s = s\<lparr>lastAriaPos := ariaPos\<rparr>;
            lookAhead = multiplyScalar (ariaVelocity s) 0.35;
            lookAhead = lookAhead\<lparr>vy := 0\<rparr>;
            targetLook = addVectors ariaPos lookAhead;
            targetLook = targetLook\<lparr>vy := vy targetLook + 0.9\<rparr>;
            targetCamPos = vec (vx ariaPos + vx lookAhead * 0.4) (vy ariaPos + 1.35)
                               (vz ariaPos + 4.2 + vz lookAhead * 0.4);
            followEase = 1 - exp (- delta * 3.5);
            s = s\<lparr>camPosition := lerpVectors (camPosition s) targetCamPos followEase\<rparr>;
            s = s\<lparr>currentTarget := lerpVectors (currentTarget s) targetLook followEase\<rparr>
        in s\<lparr>camLookAt := currentTarget s\<rparr>
      else s0)"

subsection \<open>Runs of the controller\<close>

text \<open>The callbacks that gsap and the window run. While a tween is alive gsap calls
  its \<open>onUpdate\<close>: for the tween of \<open>camera.position\<close> after writing the position it has
  interpolated (\<open>newPos\<close>), for a curve tween after setting \<open>tween.t\<close>, the points of the
  two curves at \<open>t\<close> being \<open>camPos\<close> and \<open>lookPos\<close>. When a tween ends gsap calls its
  \<open>onComplete\<close>, if it has one, and the tween is gone. A timer fires once.\<close>

definition positionTweenUpdate :: "nat \<Rightarrow> vec3 \<Rightarrow> vec3 \<Rightarrow> camera \<Rightarrow> camera" where
  "positionTweenUpdate h newPos ariaPos s =
     (case camTweens s h of
        Some (PositionTween _ _) \<Rightarrow>
          let s = s\<lparr>camPosition := newPos\<rparr>;
              stabilizedTarget = vec (vx ariaPos) 0.6 (vz ariaPos);
              s = s\<lparr>camLookAt := stabilizedTarget\<rparr>
          in s\<lparr>currentTarget := stabilizedTarget\<rparr>
      | _ \<Rightarrow> s)"

definition curveTweenUpdate :: "nat \<Rightarrow> vec3 \<Rightarrow> vec3 \<Rightarrow> camera \<Rightarrow> camera" where
  "curveTweenUpdate h camPos lookPos s =
     (case camTweens s h of
        Some (CurveTween _ _ _ _) \<Rightarrow>
          let s = s\<lparr>camPosition := camPos\<rparr>;
              s = s\<lparr>currentTarget := lookPos\<rparr>
          in s\<lparr>camLookAt := currentTarget s\<rparr>
      | _ \<Rightarrow> s)"

definition tweenCompletes :: "nat \<Rightarrow> camera \<Rightarrow> camera" where
  "tweenCompletes h s0 =
     (case camTweens s0 h of
        Some tw \<Rightarrow>
          let s = s0\<lparr>camTweens := (camTweens s0)(h := None)\<rparr>
          in (case tweenOnComplete tw of Some p \<Rightarrow> callFinish p s | None \<Rightarrow> s)
      | None \<Rightarrow> s0)"

definition finishTimerFires :: "nat \<Rightarrow> camera \<Rightarrow> camera" where
  "finishTimerFires h s0 =
     (case finishTimers s0 h of
        Some (p, ms) \<Rightarrow> callFinish p (s0\<lparr>finishTimers := (finishTimers s0)(h := None)\<rparr>)
      | None \<Rightarrow> s0)"

text \<open>What can happen to the controller: a call of one of its methods by the rest of
  the program (a caller's tour callback is given by its number), a frame, a callback of
  gsap or of a timer.\<close>

datatype camera_event =
    CallTransitionTo transition_request real
  | CallCancelTransition
  | CallStartTour "vec3 list" "vec3 list" "nat tour_options"
  | CallStopTour
  | CallPlayTour "vec3 list" "vec3 list" "nat tour_options"
  | CallStartShowroomTour "vec3 list option" "vec3 list option" "nat tour_options"
  | CallStopShowroomTour
  | CallPlayProductCinematic string cinematic_options
  | CallFrameAriaAndProduct string frame_options vec3
  | CallFollowARIA bool vec3
  | CallEnableOrbitMode vec3 orbit_options
  | CallDisableOrbitMode
  | CallUpdate real vec3 "real \<Rightarrow> vec3" "real \<Rightarrow> vec3"
  | PositionTweenUpdate nat vec3 vec3
  | CurveTweenUpdate nat vec3 vec3
  | TweenCompletes nat
  | FinishTimerFires nat

definition callerOptions :: "nat tour_options \<Rightarrow> tour_callback tour_options" where
  "callerOptions options =
     \<lparr>optLoop = optLoop options, optDuration = optDuration options,
      optBlend = optBlend options, optOnComplete = map_option Callback (optOnComplete options)\<rparr>"

fun camStep :: "camera \<Rightarrow> camera_event \<Rightarrow> camera" where
  "camStep s (CallTransitionTo request duration) = snd (transitionTo request duration s)"
| "camStep s CallCancelTransition = cancelTransition s"
| "camStep s (CallStartTour pathPoints lookPoints options) =
     startTour pathPoints lookPoints (callerOptions options) s"
| "camStep s CallStopTour = stopTour s"
| "camStep s (CallPlayTour pathPoints lookPoints options) =
     snd (playTour pathPoints lookPoints options s)"
| "camStep s (CallStartShowroomTour path lookPath options) =
     startShowroomTour path lookPath (callerOptions options) s"
| "camStep s CallStopShowroomTour = stopShowroomTour s"
| "camStep s (CallPlayProductCinematic collectionName options) =
     snd (playProductCinematic collectionName options s)"
| "camStep s (CallFrameAriaAndProduct collectionName options ariaPos) =
     snd (frameAriaAndProduct collectionName options ariaPos s)"
| "camStep s (CallFollowARIA active ariaPos) = followARIA active ariaPos s"
| "camStep s (CallEnableOrbitMode targetPosition options) =
     enableOrbitMode targetPosition options s"
| "camStep s CallDisableOrbitMode = disableOrbitMode s"
| "camStep s (CallUpdate delta ariaPos tourPathAt tourLookPathAt) =
     update delta ariaPos tourPathAt tourLookPathAt s"
| "camStep s (PositionTweenUpdate h newPos ariaPos) = positionTweenUpdate h newPos ariaPos s"
| "camStep s (CurveTweenUpdate h camPos lookPos) = curveTweenUpdate h camPos lookPos s"
| "camStep s (TweenCompletes h) = tweenCompletes h s"
| "camStep s (FinishTimerFires h) = finishTimerFires h s"

definition camRun :: "camera \<Rightarrow> camera_event list \<Rightarrow> camera" where
  "camRun s evs = foldl camStep s evs"

subsection \<open>Notions used in the proofs about the camera\<close>

definition orbitPoint :: "nat \<Rightarrow> real \<Rightarrow> vec3 \<Rightarrow> real \<Rightarrow> real \<Rightarrow> nat \<Rightarrow> vec3" where
  "orbitPoint segments startAngle target radius height i =
     vec (vx target + cos (startAngle + pi * 2 * (real i / real segments)) * radius)
         (height + sin (real i / real segments * pi * 2) * 0.2)
         (vz target + sin (startAngle + pi * 2 * (real i / real segments)) * radius)"

definition shotTarget :: "string \<Rightarrow> camera \<Rightarrow> vec3" where
  "shotTarget collectionName s =
     (let target = (case bounds s collectionName of
                      Some b \<Rightarrow> boundsCenter b | None \<Rightarrow> getProductPosition collectionName)
      in target\<lparr>vy := max 0.5 (vy target)\<rparr>)"

definition shotRadius :: "string \<Rightarrow> cinematic_options \<Rightarrow> camera \<Rightarrow> real" where
  "shotRadius collectionName options s =
     (let baseRadius = (case bounds s collectionName of
                          Some b \<Rightarrow> max 3.4 (boundsRadius b + 1.4) | None \<Rightarrow> 4.8);
          radius = (case cinRadius options of Some r \<Rightarrow> r | None \<Rightarrow> baseRadius)
      in if \<bar>vx (shotTarget collectionName s)\<bar> > 4 then max baseRadius (min radius 3.8)
         else radius)"

definition shotHeight :: "string \<Rightarrow> cinematic_options \<Rightarrow> camera \<Rightarrow> real" where
  "shotHeight collectionName options s =
     (case cinHeight options of
        Some h \<Rightarrow> h
      | None \<Rightarrow> (case bounds s collectionName of
                   Some b \<Rightarrow> max 1.1 (vy (shotTarget collectionName s) + vy (boundsSize b) * 0.24)
                 | None \<Rightarrow> 1.5))"

definition shotSegments :: "cinematic_options \<Rightarrow> nat" where
  "shotSegments options = (case cinSegments options of Some n \<Rightarrow> n | None \<Rightarrow> 7)"

definition shotStartAngle :: "string \<Rightarrow> camera \<Rightarrow> real" where
  "shotStartAngle collectionName s =
     atan2 (vz (camPosition s) - vz (shotTarget collectionName s))
           (vx (camPosition s) - vx (shotTarget collectionName s))"

text \<open>An example: the controller without gsap, its camera moved to (6, 1.5, -5) by
  a transition, which puts it at bearing 0 from the product \<open>minimal\<close> at (0, 0, -5); no
  bounds are known; the options ask for radius 3, height 1.5 and 4 segments.\<close>

definition shotExample :: camera where
  "shotExample =
     snd (transitionTo (Custom (Some (vec 6 1.5 (-5))) (Some (vec 0 0.5 (-5)))) 2
            (newCameraController False (\<lambda>_. None)))"

definition exampleShotOptions :: cinematic_options where
  "exampleShotOptions =
     \<lparr>cinRadius = Some 3, cinHeight = Some 1.5, cinSegments = Some 4,
      cinDuration = None, cinBlend = None\<rparr>"

section \<open>Properties\<close>

lemma wrapAbove_id: "diff \<le> pi \<Longrightarrow> wrapAbove diff = diff"
  by (simp add: wrapAbove.simps)

lemma wrapBelow_id: "- pi \<le> diff \<Longrightarrow> wrapBelow diff = diff"
  by (simp add: wrapBelow.simps)

lemma tolerance_below_pi: "ANGLE_TOLERANCE < pi"
  using pi_gt_zero pi_ge_two by (simp add: ANGLE_TOLERANCE_def)

lemma dampRotation_within_tolerance:
  assumes "\<bar>target - current\<bar> < ANGLE_TOLERANCE"
  shows "dampRotation current target speed dt = \<lparr>dvalue = target, finished = True\<rparr>"
proof -
  have "target - current \<le> pi" "- pi \<le> target - current"
    using assms tolerance_below_pi by linarith+
  then have "wrapBelow (wrapAbove (target - current)) = target - current"
    by (simp add: wrapAbove_id wrapBelow_id)
  then show ?thesis
    using assms by (simp add: dampRotation_def Let_def)
qed

text \<open>
  Claim C7. Once the difference between target and current is below the angular
  tolerance (0.004 rad), \<open>dampRotation\<close> reports \<open>finished\<close> and returns the target;
  feeding the returned value back in (with any speed and time step) reports
  \<open>finished\<close> again and returns the very same value.
\<close>

theorem C7_dampRotation_fixed_point:
  assumes "\<bar>target - current\<bar> < 0.004"
  shows "finished (dampRotation current target speed dt)
       \<and> dvalue (dampRotation current target speed dt) = target
       \<and> dampRotation (dvalue (dampRotation current target speed dt)) target speed' dt'
           = dampRotation current target speed dt"
proof -
  have first: "dampRotation current target speed dt = \<lparr>dvalue = target, finished = True\<rparr>"
    using assms by (intro dampRotation_within_tolerance) (simp add: ANGLE_TOLERANCE_def)
  have again: "dampRotation target target speed' dt' = \<lparr>dvalue = target, finished = True\<rparr>"
    by (intro dampRotation_within_tolerance) (simp add: ANGLE_TOLERANCE_def)
  show ?thesis by (simp add: first again)
qed

theorem C7_dampRotation_fixed_point_witness:
  "\<bar>(0.001::real) - 0\<bar> < 0.004
   \<and> finished (dampRotation 0 0.001 2.4 0.016)
   \<and> dvalue (dampRotation 0 0.001 2.4 0.016) = 0.001
   \<and> dampRotation (dvalue (dampRotation 0 0.001 2.4 0.016)) 0.001 2.4 0.016
       = dampRotation 0 0.001 2.4 0.016"
proof -
  have h: "\<bar>(0.001::real) - 0\<bar> < 0.004" by simp
  show ?thesis using h C7_dampRotation_fixed_point [OF h, of "2.4" "0.016" "2.4" "0.016"] by simp
qed

subsection \<open>The frame update, one state at a time\<close>

lemma frameDelta_le: "frameDelta elapsed lastUpdate \<le> 0.05"
  by (simp add: frameDelta_def Let_def)

lemma frameDelta_pos: "0 < frameDelta elapsed lastUpdate"
  by (simp add: frameDelta_def Let_def)

lemma frameDelta_stalled:
  "elapsed - lastUpdate \<le> 0 \<Longrightarrow> frameDelta elapsed lastUpdate = 0.016"
  by (simp add: frameDelta_def Let_def)

lemma updateARIA_unfold:
  "ariaLoaded s \<Longrightarrow>
   updateARIA e c sp s =
     updateLightState e
       (case ariaState s of
          Idle \<Rightarrow> updateIdle e (frameDelta e (lastUpdateTime s)) c (framePrelude e sp s)
        | TurningToTarget \<Rightarrow>
            updateTurningToTarget (frameDelta e (lastUpdateTime s)) (framePrelude e sp s)
        | Walking \<Rightarrow> updateWalking e (frameDelta e (lastUpdateTime s)) (framePrelude e sp s)
        | TurningToCamera \<Rightarrow>
            updateTurningToCamera (frameDelta e (lastUpdateTime s)) c (framePrelude e sp s)
        | Speaking \<Rightarrow> updateSpeaking e (frameDelta e (lastUpdateTime s)) c (framePrelude e sp s))"
  by (cases "mixer s"; cases "ariaState s")
     (simp_all add: updateARIA_def framePrelude_def Let_def)

lemma updateWalking_arrive:
  "walkArrives d s \<Longrightarrow>
   updateWalking e d s =
     s\<lparr>walkElapsed := walkElapsed s + d, walkProgress := 1,
       position := (walkEndPos s)\<lparr>vy := 0\<rparr>, rotX := 0, rotZ := 0,
       ariaState := TurningToCamera\<rparr>"
  by (simp add: updateWalking_def walkArrives_def Let_def)

lemma updateWalking_moving:
  assumes "\<not> walkArrives d s"
  shows "ariaState (updateWalking e d s) = ariaState s"
    and "walkElapsed (updateWalking e d s) = walkElapsed s + d"
    and "stepPhase (updateWalking e d s) = stepPhase s + d * bobFrequency * 1.15"
    and "mixer (updateWalking e d s) = mixer s"
    and "walkPlan (updateWalking e d s) = walkPlan s"
  using assms
  by (simp_all add: updateWalking_def walkArrives_def walkPlan_def Let_def)

lemma updateWalking_view [simp]: "cbView (updateWalking e d s) = cbView s"
  by (cases "walkArrives d s")
     (simp_all add: updateWalking_arrive, simp_all add: updateWalking_def walkArrives_def cbView_def Let_def)

lemma updateWalking_plan [simp]: "walkPlan (updateWalking e d s) = walkPlan s"
  by (cases "walkArrives d s")
     (simp_all add: updateWalking_arrive updateWalking_moving, simp add: walkPlan_def)

lemma updateWalking_mixer [simp]: "mixer (updateWalking e d s) = mixer s"
  by (cases "walkArrives d s") (simp_all add: updateWalking_arrive updateWalking_moving)

lemma updateWalking_walkElapsed [simp]:
  "walkElapsed (updateWalking e d s) = walkElapsed s + d"
  by (cases "walkArrives d s") (simp_all add: updateWalking_arrive updateWalking_moving)

lemma updateWalking_state:
  "ariaState (updateWalking e d s) = (if walkArrives d s then TurningToCamera else ariaState s)"
  by (cases "walkArrives d s") (simp_all add: updateWalking_arrive updateWalking_moving)

lemma updateWalking_stepPhase:
  "stepPhase (updateWalking e d s)
     = (if walkArrives d s then stepPhase s else stepPhase s + d * bobFrequency * 1.15)"
  by (cases "walkArrives d s") (simp_all add: updateWalking_arrive updateWalking_moving)

lemma updateLightState_fields [simp]:
  "cbView (updateLightState e s) = cbView s"
  "walkPlan (updateLightState e s) = walkPlan s"
  "ariaState (updateLightState e s) = ariaState s"
  "position (updateLightState e s) = position s"
  "walkElapsed (updateLightState e s) = walkElapsed s"
  "stepPhase (updateLightState e s) = stepPhase s"
  "mixer (updateLightState e s) = mixer s"
  "rotX (updateLightState e s) = rotX s"
  "rotZ (updateLightState e s) = rotZ s"
  "walkProgress (updateLightState e s) = walkProgress s"
  by (simp_all add: updateLightState_def cbView_def walkPlan_def Let_def)

lemma updateIdle_fields [simp]:
  "cbView (updateIdle e d c s) = cbView s"
  "walkPlan (updateIdle e d c s) = walkPlan s"
  "ariaState (updateIdle e d c s) = ariaState s"
  "walkElapsed (updateIdle e d c s) = walkElapsed s"
  "stepPhase (updateIdle e d c s) = stepPhase s"
  "mixer (updateIdle e d c s) = mixer s"
  by (simp_all add: updateIdle_def lookAtCamera_def cbView_def walkPlan_def Let_def)

lemma updateSpeaking_fields [simp]:
  "cbView (updateSpeaking e d c s) = cbView s"
  "walkPlan (updateSpeaking e d c s) = walkPlan s"
  "ariaState (updateSpeaking e d c s) = ariaState s"
  "walkElapsed (updateSpeaking e d c s) = walkElapsed s"
  "stepPhase (updateSpeaking e d c s) = stepPhase s"
  "mixer (updateSpeaking e d c s) = mixer s"
  by (simp_all add: updateSpeaking_def lookAtCamera_def cbView_def walkPlan_def Let_def)

lemma updateTurningToTarget_fields [simp]:
  "cbView (updateTurningToTarget d s) = cbView s"
  "walkPlan (updateTurningToTarget d s) = walkPlan s"
  "walkElapsed (updateTurningToTarget d s) = walkElapsed s"
  "stepPhase (updateTurningToTarget d s) = stepPhase s"
  "mixer (updateTurningToTarget d s) = mixer s"
  "rotY (updateTurningToTarget d s) = dvalue (dampRotation (rotY s) (targetRotation s) turnSpeed d)"
  by (simp_all add: updateTurningToTarget_def cbView_def walkPlan_def Let_def)

lemma updateTurningToTarget_state:
  "ariaState (updateTurningToTarget d s)
     = (if finished (dampRotation (rotY s) (targetRotation s) turnSpeed d)
        then Walking else ariaState s)"
  by (simp add: updateTurningToTarget_def Let_def)

lemma callWalkResolve_fields [simp]:
  "walkPlan (callWalkResolve cb s) = walkPlan s"
  "ariaLoaded (callWalkResolve cb s) = ariaLoaded s"
  "walkDuration (callWalkResolve cb s) = walkDuration s"
  "walkStartPos (callWalkResolve cb s) = walkStartPos s"
  "walkEndPos (callWalkResolve cb s) = walkEndPos s"
  "walkElapsed (callWalkResolve cb s) = walkElapsed s"
  "stepPhase (callWalkResolve cb s) = stepPhase s"
  "mixer (callWalkResolve cb s) = mixer s"
  "ariaState (callWalkResolve cb s) = ariaState s"
  "position (callWalkResolve cb s) = position s"
  by (simp_all add: callWalkResolve_def resolvePromise_def clearTimeout_def walkPlan_def Let_def
        split: option.splits)

lemma updateTurningToCamera_fields [simp]:
  "walkPlan (updateTurningToCamera d c s) = walkPlan s"
  "walkElapsed (updateTurningToCamera d c s) = walkElapsed s"
  "stepPhase (updateTurningToCamera d c s) = stepPhase s"
  "mixer (updateTurningToCamera d c s) = mixer s"
  by (simp_all add: updateTurningToCamera_def Let_def split: option.splits)
     (simp_all add: walkPlan_def)

lemma updateTurningToCamera_state:
  "ariaState (updateTurningToCamera d c s)
     = (if facingCamera d c s then Speaking else ariaState s)"
  by (simp add: updateTurningToCamera_def facingCamera_def Let_def split: option.splits)

lemma framePrelude_fields [simp]:
  "cbView (framePrelude e sp s) = cbView s"
  "walkPlan (framePrelude e sp s) = walkPlan s"
  "ariaState (framePrelude e sp s) = ariaState s"
  "position (framePrelude e sp s) = position s"
  "rotY (framePrelude e sp s) = rotY s"
  "targetRotation (framePrelude e sp s) = targetRotation s"
  "onWalkComplete (framePrelude e sp s) = onWalkComplete s"
  "walkElapsed (framePrelude e sp s) = walkElapsed s"
  "walkDuration (framePrelude e sp s) = walkDuration s"
  "walkEndPos (framePrelude e sp s) = walkEndPos s"
  "stepPhase (framePrelude e sp s) = stepPhase s"
  "mixer (framePrelude e sp s)
     = map_option (\<lambda>t. t + frameDelta e (lastUpdateTime s)) (mixer s)"
  by (simp_all add: framePrelude_def cbView_def walkPlan_def Let_def split: option.splits)


lemma updateARIA_plan [simp]: "walkPlan (updateARIA e c sp s) = walkPlan s"
proof (cases "ariaLoaded s")
  case False
  then show ?thesis by (simp add: updateARIA_def)
next
  case True
  show ?thesis by (cases "ariaState s") (simp_all add: updateARIA_unfold [OF True] True)
qed

lemma updateARIA_walkElapsed:
  "walkElapsed (updateARIA e c sp s) =
     (if ariaLoaded s \<and> ariaState s = Walking
      then walkElapsed s + frameDelta e (lastUpdateTime s) else walkElapsed s)"
proof (cases "ariaLoaded s")
  case False
  then show ?thesis by (simp add: updateARIA_def)
next
  case True
  show ?thesis by (cases "ariaState s") (simp_all add: updateARIA_unfold [OF True] True)
qed

lemma walkArrives_prelude [simp]: "walkArrives d (framePrelude e sp s) = walkArrives d s"
  by (simp add: walkArrives_def)

lemma facingCamera_prelude [simp]: "facingCamera d c (framePrelude e sp s) = facingCamera d c s"
  by (simp add: facingCamera_def)

lemma updateARIA_stepPhase:
  "stepPhase (updateARIA e c sp s) =
     (if ariaLoaded s \<and> ariaState s = Walking \<and> \<not> walkArrives (frameDelta e (lastUpdateTime s)) s
      then stepPhase s + frameDelta e (lastUpdateTime s) * bobFrequency * 1.15
      else stepPhase s)"
proof (cases "ariaLoaded s")
  case False
  then show ?thesis by (simp add: updateARIA_def)
next
  case True
  show ?thesis
    by (cases "ariaState s") (simp_all add: updateARIA_unfold [OF True] True updateWalking_stepPhase)
qed

lemma updateARIA_mixer:
  "mixer (updateARIA e c sp s) =
     (if ariaLoaded s
      then map_option (\<lambda>t. t + frameDelta e (lastUpdateTime s)) (mixer s)
      else mixer s)"
proof (cases "ariaLoaded s")
  case False
  then show ?thesis by (simp add: updateARIA_def)
next
  case True
  show ?thesis by (cases "ariaState s") (simp_all add: updateARIA_unfold [OF True] True)
qed

lemma updateARIA_turning:
  "ariaLoaded s \<Longrightarrow> ariaState s = TurningToTarget \<Longrightarrow>
   rotY (updateARIA e c sp s)
     = dvalue (dampRotation (rotY s) (targetRotation s) turnSpeed
                 (frameDelta e (lastUpdateTime s)))"
  by (simp add: updateARIA_unfold updateLightState_def Let_def)

lemma updateARIA_state:
  "ariaState (updateARIA e c sp s) =
     (if \<not> ariaLoaded s then ariaState s
      else case ariaState s of
             Idle \<Rightarrow> Idle
           | TurningToTarget \<Rightarrow>
               if finished (dampRotation (rotY s) (targetRotation s) turnSpeed
                              (frameDelta e (lastUpdateTime s)))
               then Walking else TurningToTarget
           | Walking \<Rightarrow>
               if walkArrives (frameDelta e (lastUpdateTime s)) s
               then TurningToCamera else Walking
           | TurningToCamera \<Rightarrow>
               if facingCamera (frameDelta e (lastUpdateTime s)) c s
               then Speaking else TurningToCamera
           | Speaking \<Rightarrow> Speaking)"
proof (cases "ariaLoaded s")
  case False
  then show ?thesis by (simp add: updateARIA_def)
next
  case True
  show ?thesis
    by (cases "ariaState s")
       (simp_all add: updateARIA_unfold [OF True] True updateWalking_state
          updateTurningToTarget_state updateTurningToCamera_state)
qed

lemma updateARIA_arrive:
  assumes "ariaLoaded s" "ariaState s = Walking"
    "walkArrives (frameDelta e (lastUpdateTime s)) s"
  shows "position (updateARIA e c sp s) = (walkEndPos s)\<lparr>vy := 0\<rparr>"
    and "rotX (updateARIA e c sp s) = 0"
    and "rotZ (updateARIA e c sp s) = 0"
    and "walkProgress (updateARIA e c sp s) = 1"
    and "ariaState (updateARIA e c sp s) = TurningToCamera"
  using assms by (simp_all add: updateARIA_unfold updateWalking_arrive)

lemma ariaInv_module: "ariaInv ariaModule"
  by (simp add: ariaInv_def ariaModule_def)

lemma ariaInv_load: "ariaInv s \<Longrightarrow> ariaInv (loadARIA b s)"
  by (simp add: ariaInv_def loadARIA_def)

lemma ariaInv_reset: "ariaInv s \<Longrightarrow> ariaInv (resetToStart s)"
  by (simp add: ariaInv_def resetToStart_def Let_def)

text \<open>the callback, called when its request is the current one\<close>

lemma callWalkResolve_current:
  assumes "cbRequestId cb = walkRequestId s"
  shows "timers (callWalkResolve cb s)
           = (case pendingWalkTimeout s of Some h \<Rightarrow> (timers s)(h := None) | None \<Rightarrow> timers s)"
    and "pendingWalkTimeout (callWalkResolve cb s) = None"
    and "onWalkComplete (callWalkResolve cb s) = None"
    and "pendingWalkResolve (callWalkResolve cb s) = None"
    and "resolveCalls (callWalkResolve cb s)
           = (resolveCalls s)(cbPromise cb := resolveCalls s (cbPromise cb) + 1)"
    and "settledLog (callWalkResolve cb s)
           = (if cbPromise cb \<in> set (settledLog s) then settledLog s
              else settledLog s @ [cbPromise cb])"
    and "walkRequestId (callWalkResolve cb s) = walkRequestId s"
    and "nextTimer (callWalkResolve cb s) = nextTimer s"
    and "nextPromise (callWalkResolve cb s) = nextPromise s"
  using assms
  by (simp_all add: callWalkResolve_def resolvePromise_def clearTimeout_def Let_def
        split: option.splits)

lemma ariaInv_timerD:
  "ariaInv s \<Longrightarrow> timers s h = Some t \<Longrightarrow>
     h < nextTimer s \<and> pendingWalkTimeout s = Some h \<and> tRequestId t = walkRequestId s
     \<and> onWalkComplete s = Some \<lparr>cbRequestId = walkRequestId s, cbPromise = tPromise t\<rparr>"
  unfolding ariaInv_def by blast

lemma ariaInv_sameD: "ariaInv s \<Longrightarrow> pendingWalkResolve s = onWalkComplete s"
  unfolding ariaInv_def by blast

lemma ariaInv_cbD:
  "ariaInv s \<Longrightarrow> onWalkComplete s = Some cb \<Longrightarrow>
     cbRequestId cb = walkRequestId s \<and> cbPromise cb < nextPromise s
     \<and> resolveCalls s (cbPromise cb) = 0"
  unfolding ariaInv_def by blast

lemma ariaInv_handleD: "ariaInv s \<Longrightarrow> pendingWalkTimeout s = Some h \<Longrightarrow> h < nextTimer s"
  unfolding ariaInv_def by blast

lemma ariaInv_freshD: "ariaInv s \<Longrightarrow> nextPromise s \<le> p \<Longrightarrow> resolveCalls s p = 0"
  unfolding ariaInv_def by blast

lemma ariaInv_pendingD:
  "ariaInv s \<Longrightarrow> p < nextPromise s \<Longrightarrow> resolveCalls s p = 0 \<Longrightarrow>
     onWalkComplete s = Some \<lparr>cbRequestId = walkRequestId s, cbPromise = p\<rparr>"
  unfolding ariaInv_def by blast

lemma ariaInv_logD: "ariaInv s \<Longrightarrow> p \<in> set (settledLog s) \<longleftrightarrow> 0 < resolveCalls s p"
  unfolding ariaInv_def by blast

lemma ariaInv_distinctD: "ariaInv s \<Longrightarrow> distinct (settledLog s)"
  unfolding ariaInv_def by blast

lemma ariaInvI:
  assumes "\<And>h t. timers s h = Some t \<Longrightarrow>
        h < nextTimer s \<and> pendingWalkTimeout s = Some h \<and> tRequestId t = walkRequestId s
        \<and> onWalkComplete s = Some \<lparr>cbRequestId = walkRequestId s, cbPromise = tPromise t\<rparr>"
    and "pendingWalkResolve s = onWalkComplete s"
    and "\<And>cb. onWalkComplete s = Some cb \<Longrightarrow>
        cbRequestId cb = walkRequestId s \<and> cbPromise cb < nextPromise s
        \<and> resolveCalls s (cbPromise cb) = 0"
    and "\<And>h. pendingWalkTimeout s = Some h \<Longrightarrow> h < nextTimer s"
    and "\<And>p. nextPromise s \<le> p \<Longrightarrow> resolveCalls s p = 0"
    and "\<And>p. p < nextPromise s \<Longrightarrow> resolveCalls s p = 0 \<Longrightarrow>
        onWalkComplete s = Some \<lparr>cbRequestId = walkRequestId s, cbPromise = p\<rparr>"
    and "\<And>p. p \<in> set (settledLog s) \<longleftrightarrow> 0 < resolveCalls s p"
    and "distinct (settledLog s)"
  shows "ariaInv s"
  unfolding ariaInv_def using assms by blast

lemma ariaInv_callWalkResolve:
  assumes inv: "ariaInv s" and cb: "onWalkComplete s = Some cb"
  shows "ariaInv (callWalkResolve cb (s\<lparr>onWalkComplete := None\<rparr>))"
proof -
  let ?s0 = "s\<lparr>onWalkComplete := None\<rparr>"
  let ?s' = "callWalkResolve cb ?s0"
  note cbD = ariaInv_cbD [OF inv cb]
  have cur: "cbRequestId cb = walkRequestId ?s0" using cbD by simp
  note f = callWalkResolve_current [OF cur]
  have cbeq: "cb = \<lparr>cbRequestId = walkRequestId s, cbPromise = cbPromise cb\<rparr>"
    using cbD by simp
  have no_timers: "timers ?s' h = None" for h
  proof (cases "timers s h")
    case None
    then show ?thesis by (simp add: f split: option.splits)
  next
    case (Some t)
    from ariaInv_timerD [OF inv Some] show ?thesis by (simp add: f)
  qed
  have calls: "resolveCalls ?s' = (resolveCalls s)(cbPromise cb := 1)"
    using cbD by (simp add: f)
  have notin: "cbPromise cb \<notin> set (settledLog s)"
    using cbD by (simp add: ariaInv_logD [OF inv])
  have log: "settledLog ?s' = settledLog s @ [cbPromise cb]"
    using notin by (simp add: f)
  show ?thesis
  proof (rule ariaInvI)
    fix h t assume "timers ?s' h = Some t"
    then show "h < nextTimer ?s' \<and> pendingWalkTimeout ?s' = Some h
        \<and> tRequestId t = walkRequestId ?s'
        \<and> onWalkComplete ?s' = Some \<lparr>cbRequestId = walkRequestId ?s', cbPromise = tPromise t\<rparr>"
      by (simp add: no_timers)
  next
    show "pendingWalkResolve ?s' = onWalkComplete ?s'" by (simp add: f)
  next
    fix c assume "onWalkComplete ?s' = Some c"
    then show "cbRequestId c = walkRequestId ?s' \<and> cbPromise c < nextPromise ?s'
        \<and> resolveCalls ?s' (cbPromise c) = 0"
      by (simp add: f)
  next
    fix h assume "pendingWalkTimeout ?s' = Some h"
    then show "h < nextTimer ?s'" by (simp add: f)
  next
    fix p assume "nextPromise ?s' \<le> p"
    then have "nextPromise s \<le> p" by (simp add: f)
    then show "resolveCalls ?s' p = 0"
      using cbD ariaInv_freshD [OF inv, of p] by (simp add: calls)
  next
    fix p assume p: "p < nextPromise ?s'" and z: "resolveCalls ?s' p = 0"
    from z have ne: "p \<noteq> cbPromise cb" and z0: "resolveCalls s p = 0"
      by (auto simp: calls split: if_splits)
    from p have "p < nextPromise s" by (simp add: f)
    from ariaInv_pendingD [OF inv this z0] cb cbeq have "p = cbPromise cb"
      by (metis option.inject walk_cb.ext_inject)
    with ne show "onWalkComplete ?s' =
        Some \<lparr>cbRequestId = walkRequestId ?s', cbPromise = p\<rparr>" by simp
  next
    fix p show "p \<in> set (settledLog ?s') \<longleftrightarrow> 0 < resolveCalls ?s' p"
      using ariaInv_logD [OF inv, of p] by (auto simp: log calls)
  next
    show "distinct (settledLog ?s')"
      using notin ariaInv_distinctD [OF inv] by (simp add: log)
  qed
qed

lemma cbView_eqD:
  assumes "cbView s' = cbView s"
  shows "timers s' = timers s" "pendingWalkTimeout s' = pendingWalkTimeout s"
    "onWalkComplete s' = onWalkComplete s" "pendingWalkResolve s' = pendingWalkResolve s"
    "walkRequestId s' = walkRequestId s" "nextTimer s' = nextTimer s"
    "nextPromise s' = nextPromise s" "resolveCalls s' = resolveCalls s"
    "settledLog s' = settledLog s"
  using assms by (simp_all add: cbView_def)

lemma ariaInv_view:
  assumes "cbView s' = cbView s"
  shows "ariaInv s' = ariaInv s"
  unfolding ariaInv_def by (simp only: cbView_eqD [OF assms])

lemma callWalkResolve_view:
  "cbView s' = cbView s \<Longrightarrow> cbView (callWalkResolve cb s') = cbView (callWalkResolve cb s)"
  by (simp add: cbView_def callWalkResolve_def resolvePromise_def clearTimeout_def Let_def
        split: option.splits)

lemma walkToPosition_unfold:
  "walkToPosition targetPos s0 =
     (if \<not> ariaLoaded s0
      then (nextPromise s0, resolvePromise (nextPromise s0) (s0\<lparr>nextPromise := nextPromise s0 + 1\<rparr>))
      else startWalk targetPos (nextPromise s0)
             (cancelPendingWalk (s0\<lparr>nextPromise := nextPromise s0 + 1\<rparr>)))"
  by (simp add: walkToPosition_def cancelPendingWalk_def startWalk_def Let_def)

lemma startWalk_fields:
  "fst (startWalk targetPos p s) = p"
  "timers (snd (startWalk targetPos p s))
     = (timers s)(nextTimer s \<mapsto>
         \<lparr>tRequestId = walkRequestId s + 1, tPromise = p,
          tDelayMs = max 8000 (max 3.6 (distanceTo (position s) (targetPos\<lparr>vy := 0\<rparr>) / walkSpeed) * 1500)\<rparr>)"
  "pendingWalkTimeout (snd (startWalk targetPos p s)) = Some (nextTimer s)"
  "onWalkComplete (snd (startWalk targetPos p s))
     = Some \<lparr>cbRequestId = walkRequestId s + 1, cbPromise = p\<rparr>"
  "pendingWalkResolve (snd (startWalk targetPos p s))
     = Some \<lparr>cbRequestId = walkRequestId s + 1, cbPromise = p\<rparr>"
  "walkRequestId (snd (startWalk targetPos p s)) = walkRequestId s + 1"
  "nextTimer (snd (startWalk targetPos p s)) = nextTimer s + 1"
  "nextPromise (snd (startWalk targetPos p s)) = nextPromise s"
  "resolveCalls (snd (startWalk targetPos p s)) = resolveCalls s"
  "settledLog (snd (startWalk targetPos p s)) = settledLog s"
  "ariaLoaded (snd (startWalk targetPos p s)) = ariaLoaded s"
  "walkDuration (snd (startWalk targetPos p s))
     = max 3.6 (distanceTo (position s) (targetPos\<lparr>vy := 0\<rparr>) / walkSpeed)"
  "walkStartPos (snd (startWalk targetPos p s)) = position s"
  "walkEndPos (snd (startWalk targetPos p s)) = targetPos\<lparr>vy := 0\<rparr>"
  "walkElapsed (snd (startWalk targetPos p s)) = 0"
  "stepPhase (snd (startWalk targetPos p s)) = 0"
  "walkProgress (snd (startWalk targetPos p s)) = 0"
  "position (snd (startWalk targetPos p s)) = position s"
  "ariaState (snd (startWalk targetPos p s)) = TurningToTarget"
  "targetRotation (snd (startWalk targetPos p s))
     = atan2 (vx (subVectors (targetPos\<lparr>vy := 0\<rparr>) (position s)))
             (vz (subVectors (targetPos\<lparr>vy := 0\<rparr>) (position s)))"
  by (simp_all add: startWalk_def setTimeout_def Let_def)

lemma ariaInv_no_timers:
  assumes "ariaInv s" "onWalkComplete s = None"
  shows "timers s = Map.empty"
proof
  fix h show "timers s h = Map.empty h"
    using ariaInv_timerD [OF assms(1), of h] assms(2) by (cases "timers s h") auto
qed

lemma ariaInv_one_timer:
  assumes "ariaInv s" "pendingWalkTimeout s = Some h"
  shows "(timers s)(h := None) = Map.empty"
proof
  fix k show "((timers s)(h := None)) k = Map.empty k"
    using ariaInv_timerD [OF assms(1), of k] assms(2) by (cases "timers s k") auto
qed

lemma cancelPendingWalk_view:
  assumes inv: "ariaInv s"
  shows "cbView (cancelPendingWalk (s\<lparr>nextPromise := k\<rparr>)) =
     (Map.empty, None, None, None, walkRequestId s, nextTimer s, k,
      (case onWalkComplete s of None \<Rightarrow> resolveCalls s
       | Some cb \<Rightarrow> (resolveCalls s)(cbPromise cb := 1)),
      (case onWalkComplete s of None \<Rightarrow> settledLog s
       | Some cb \<Rightarrow> settledLog s @ [cbPromise cb]))"
proof (cases "onWalkComplete s")
  case None
  then have r: "pendingWalkResolve s = None" using ariaInv_sameD [OF inv] by simp
  have t: "timers s = Map.empty" by (rule ariaInv_no_timers [OF inv None])
  show ?thesis
    by (cases "pendingWalkTimeout s")
       (simp_all add: cancelPendingWalk_def cbView_def clearTimeout_def Let_def None r t)
next
  case (Some cb)
  then have r: "pendingWalkResolve s = Some cb" using ariaInv_sameD [OF inv] by simp
  note cbD = ariaInv_cbD [OF inv Some]
  have notin: "cbPromise cb \<notin> set (settledLog s)"
    using cbD by (simp add: ariaInv_logD [OF inv])
  have cur: "cbRequestId cb = walkRequestId (s\<lparr>nextPromise := k\<rparr>)" using cbD by simp
  note f = callWalkResolve_current [OF cur]
  show ?thesis
  proof (cases "pendingWalkTimeout s")
    case None
    have "timers s h = None" for h
      using ariaInv_timerD [OF inv, of h] None by (cases "timers s h") auto
    then have "timers s = Map.empty" by auto
    then show ?thesis
      using cbD notin None
      by (simp add: cancelPendingWalk_def cbView_def Let_def Some r f)
  next
    case (Some h)
    show ?thesis
      using cbD notin Some ariaInv_one_timer [OF inv Some]
      by (simp add: cancelPendingWalk_def cbView_def Let_def \<open>onWalkComplete s = Some cb\<close> r f)
  qed
qed

lemma cancelPendingWalk_fields [simp]:
  "position (cancelPendingWalk s) = position s"
  "ariaLoaded (cancelPendingWalk s) = ariaLoaded s"
  by (simp_all add: cancelPendingWalk_def clearTimeout_def Let_def split: option.splits)

lemma cbView_startWalk:
  "cbView s = (tm, T, C, R, n, nt, np, calls, lg) \<Longrightarrow>
   cbView (snd (startWalk targetPos p s)) =
     (tm(nt \<mapsto> \<lparr>tRequestId = n + 1, tPromise = p,
          tDelayMs = max 8000 (max 3.6 (distanceTo (position s) (targetPos\<lparr>vy := 0\<rparr>) / walkSpeed) * 1500)\<rparr>),
      Some nt, Some \<lparr>cbRequestId = n + 1, cbPromise = p\<rparr>,
      Some \<lparr>cbRequestId = n + 1, cbPromise = p\<rparr>, n + 1, nt + 1, np, calls, lg)"
  by (simp add: cbView_def startWalk_fields)

lemma walkToPosition_loaded_view:
  assumes inv: "ariaInv s" and ld: "ariaLoaded s"
  shows "cbView (snd (walkToPosition targetPos s)) =
     ([nextTimer s \<mapsto> walkTimer targetPos s],
      Some (nextTimer s),
      Some \<lparr>cbRequestId = walkRequestId s + 1, cbPromise = nextPromise s\<rparr>,
      Some \<lparr>cbRequestId = walkRequestId s + 1, cbPromise = nextPromise s\<rparr>,
      walkRequestId s + 1, nextTimer s + 1, nextPromise s + 1,
      (case onWalkComplete s of None \<Rightarrow> resolveCalls s
       | Some cb \<Rightarrow> (resolveCalls s)(cbPromise cb := 1)),
      (case onWalkComplete s of None \<Rightarrow> settledLog s
       | Some cb \<Rightarrow> settledLog s @ [cbPromise cb]))"
  using ld
  by (simp add: walkToPosition_unfold
        cbView_startWalk [OF cancelPendingWalk_view [OF inv]] walkTimer_def)

lemma walkToPosition_unloaded_view:
  assumes "\<not> ariaLoaded s"
  shows "cbView (snd (walkToPosition targetPos s)) =
     (timers s, pendingWalkTimeout s, onWalkComplete s, pendingWalkResolve s,
      walkRequestId s, nextTimer s, nextPromise s + 1,
      (resolveCalls s)(nextPromise s := resolveCalls s (nextPromise s) + 1),
      (if nextPromise s \<in> set (settledLog s) then settledLog s
       else settledLog s @ [nextPromise s]))"
  using assms by (simp add: walkToPosition_unfold cbView_def resolvePromise_def)

lemma walkToPosition_fst [simp]: "fst (walkToPosition targetPos s) = nextPromise s"
  by (simp add: walkToPosition_unfold startWalk_fields)

lemma walkToPosition_loaded_fields:
  assumes "ariaLoaded s"
  shows "ariaLoaded (snd (walkToPosition targetPos s))"
    and "walkDuration (snd (walkToPosition targetPos s))
           = max 3.6 (distanceTo (position s) (targetPos\<lparr>vy := 0\<rparr>) / walkSpeed)"
    and "walkStartPos (snd (walkToPosition targetPos s)) = position s"
    and "walkEndPos (snd (walkToPosition targetPos s)) = targetPos\<lparr>vy := 0\<rparr>"
    and "walkElapsed (snd (walkToPosition targetPos s)) = 0"
    and "stepPhase (snd (walkToPosition targetPos s)) = 0"
    and "walkProgress (snd (walkToPosition targetPos s)) = 0"
    and "position (snd (walkToPosition targetPos s)) = position s"
    and "ariaState (snd (walkToPosition targetPos s)) = TurningToTarget"
    and "targetRotation (snd (walkToPosition targetPos s))
     = atan2 (vx (subVectors (targetPos\<lparr>vy := 0\<rparr>) (position s)))
             (vz (subVectors (targetPos\<lparr>vy := 0\<rparr>) (position s)))"
  using assms by (simp_all add: walkToPosition_unfold startWalk_fields)

lemma distinct_count_list_one: "x \<in> set xs \<Longrightarrow> distinct xs \<Longrightarrow> count_list xs x = 1"
  by (induction xs) auto

lemma afterCancel:
  assumes inv: "ariaInv s"
  shows "\<And>p. nextPromise s \<le> p \<Longrightarrow> callsAfterCancel s p = 0"
    and "\<And>p. p < nextPromise s \<Longrightarrow> 0 < callsAfterCancel s p"
    and "\<And>p. p \<in> set (logAfterCancel s) \<longleftrightarrow> 0 < callsAfterCancel s p"
    and "distinct (logAfterCancel s)"
    and "\<And>p. 0 < resolveCalls s p \<Longrightarrow> callsAfterCancel s p = resolveCalls s p"
    and "\<And>p. p < nextPromise s \<Longrightarrow> resolveCalls s p = 0 \<Longrightarrow> callsAfterCancel s p = 1"
    and "\<And>p. p < nextPromise s \<Longrightarrow> resolveCalls s p = 0 \<Longrightarrow>
           count_list (logAfterCancel s) p = 1"
proof -
  show g1: "callsAfterCancel s p = 0" if "nextPromise s \<le> p" for p
  proof (cases "onWalkComplete s")
    case None
    then show ?thesis using ariaInv_freshD [OF inv that] by (simp add: callsAfterCancel_def)
  next
    case (Some cb)
    then show ?thesis
      using ariaInv_freshD [OF inv that] ariaInv_cbD [OF inv Some] that
      by (auto simp: callsAfterCancel_def)
  qed
  show g6: "callsAfterCancel s p = 1" if "p < nextPromise s" "resolveCalls s p = 0" for p
  proof -
    from ariaInv_pendingD [OF inv that]
    have "onWalkComplete s = Some \<lparr>cbRequestId = walkRequestId s, cbPromise = p\<rparr>" .
    then show ?thesis by (simp add: callsAfterCancel_def)
  qed
  show g5: "callsAfterCancel s p = resolveCalls s p" if "0 < resolveCalls s p" for p
  proof (cases "onWalkComplete s")
    case None
    then show ?thesis by (simp add: callsAfterCancel_def)
  next
    case (Some cb)
    then show ?thesis using ariaInv_cbD [OF inv Some] that
      by (auto simp: callsAfterCancel_def)
  qed
  show g2: "0 < callsAfterCancel s p" if "p < nextPromise s" for p
    using g5 [of p] g6 [OF that] by (cases "resolveCalls s p = 0") auto
  show g3: "p \<in> set (logAfterCancel s) \<longleftrightarrow> 0 < callsAfterCancel s p" for p
    using ariaInv_logD [OF inv, of p]
    by (cases "onWalkComplete s") (auto simp: callsAfterCancel_def logAfterCancel_def)
  show g4: "distinct (logAfterCancel s)"
  proof (cases "onWalkComplete s")
    case None
    then show ?thesis using ariaInv_distinctD [OF inv] by (simp add: logAfterCancel_def)
  next
    case (Some cb)
    then show ?thesis
      using ariaInv_distinctD [OF inv] ariaInv_cbD [OF inv Some] ariaInv_logD [OF inv, of "cbPromise cb"]
      by (simp add: logAfterCancel_def)
  qed
  show "count_list (logAfterCancel s) p = 1" if "p < nextPromise s" "resolveCalls s p = 0" for p
  proof -
    have "p \<in> set (logAfterCancel s)" using g3 [of p] g6 [OF that] by simp
    with g4 show ?thesis by (rule distinct_count_list_one [rotated])
  qed
qed

lemma ariaInv_walkToPosition:
  assumes inv: "ariaInv s"
  shows "ariaInv (snd (walkToPosition targetPos s))"
proof (cases "ariaLoaded s")
  case True
  let ?s' = "snd (walkToPosition targetPos s)"
  note v = walkToPosition_loaded_view [OF inv True, of targetPos,
      folded callsAfterCancel_def logAfterCancel_def]
  have f: "timers ?s' = [nextTimer s \<mapsto> walkTimer targetPos s]"
    "pendingWalkTimeout ?s' = Some (nextTimer s)"
    "onWalkComplete ?s' = Some \<lparr>cbRequestId = walkRequestId s + 1, cbPromise = nextPromise s\<rparr>"
    "pendingWalkResolve ?s' = Some \<lparr>cbRequestId = walkRequestId s + 1, cbPromise = nextPromise s\<rparr>"
    "walkRequestId ?s' = walkRequestId s + 1" "nextTimer ?s' = nextTimer s + 1"
    "nextPromise ?s' = nextPromise s + 1" "resolveCalls ?s' = callsAfterCancel s"
    "settledLog ?s' = logAfterCancel s"
    using v by (simp_all add: cbView_def)
  note ac = afterCancel [OF inv]
  show ?thesis
  proof (rule ariaInvI)
    fix h t assume "timers ?s' h = Some t"
    then show "h < nextTimer ?s' \<and> pendingWalkTimeout ?s' = Some h
        \<and> tRequestId t = walkRequestId ?s'
        \<and> onWalkComplete ?s' = Some \<lparr>cbRequestId = walkRequestId ?s', cbPromise = tPromise t\<rparr>"
      by (auto simp: f walkTimer_def split: if_splits)
  next
    show "pendingWalkResolve ?s' = onWalkComplete ?s'" by (simp add: f)
  next
    fix c assume "onWalkComplete ?s' = Some c"
    then show "cbRequestId c = walkRequestId ?s' \<and> cbPromise c < nextPromise ?s'
        \<and> resolveCalls ?s' (cbPromise c) = 0"
      using ac(1) [of "nextPromise s"] by (auto simp: f)
  next
    fix h assume "pendingWalkTimeout ?s' = Some h"
    then show "h < nextTimer ?s'" by (simp add: f)
  next
    fix p assume "nextPromise ?s' \<le> p"
    then show "resolveCalls ?s' p = 0" using ac(1) [of p] by (simp add: f)
  next
    fix p assume p: "p < nextPromise ?s'" and z: "resolveCalls ?s' p = 0"
    have "p = nextPromise s"
    proof (rule ccontr)
      assume "p \<noteq> nextPromise s"
      with p have "p < nextPromise s" by (simp add: f)
      from ac(2) [OF this] z show False by (simp add: f)
    qed
    then show "onWalkComplete ?s' =
        Some \<lparr>cbRequestId = walkRequestId ?s', cbPromise = p\<rparr>" by (simp add: f)
  next
    fix p show "p \<in> set (settledLog ?s') \<longleftrightarrow> 0 < resolveCalls ?s' p"
      using ac(3) [of p] by (simp add: f)
  next
    show "distinct (settledLog ?s')" using ac(4) by (simp add: f)
  qed
next
  case False
  let ?s' = "snd (walkToPosition targetPos s)"
  note v = walkToPosition_unloaded_view [OF False, of targetPos]
  have z: "resolveCalls s (nextPromise s) = 0" by (rule ariaInv_freshD [OF inv]) simp
  then have notin: "nextPromise s \<notin> set (settledLog s)" by (simp add: ariaInv_logD [OF inv])
  have f: "timers ?s' = timers s"
    "pendingWalkTimeout ?s' = pendingWalkTimeout s"
    "onWalkComplete ?s' = onWalkComplete s"
    "pendingWalkResolve ?s' = pendingWalkResolve s"
    "walkRequestId ?s' = walkRequestId s" "nextTimer ?s' = nextTimer s"
    "nextPromise ?s' = nextPromise s + 1"
    "resolveCalls ?s' = (resolveCalls s)(nextPromise s := 1)"
    "settledLog ?s' = settledLog s @ [nextPromise s]"
    using v z notin by (simp_all add: cbView_def)
  show ?thesis
  proof (rule ariaInvI)
    fix h t assume "timers ?s' h = Some t"
    then show "h < nextTimer ?s' \<and> pendingWalkTimeout ?s' = Some h
        \<and> tRequestId t = walkRequestId ?s'
        \<and> onWalkComplete ?s' = Some \<lparr>cbRequestId = walkRequestId ?s', cbPromise = tPromise t\<rparr>"
      using ariaInv_timerD [OF inv, of h t] by (simp add: f)
  next
    show "pendingWalkResolve ?s' = onWalkComplete ?s'"
      using ariaInv_sameD [OF inv] by (simp add: f)
  next
    fix c assume "onWalkComplete ?s' = Some c"
    then show "cbRequestId c = walkRequestId ?s' \<and> cbPromise c < nextPromise ?s'
        \<and> resolveCalls ?s' (cbPromise c) = 0"
      using ariaInv_cbD [OF inv, of c] by (auto simp: f)
  next
    fix h assume "pendingWalkTimeout ?s' = Some h"
    then show "h < nextTimer ?s'" using ariaInv_handleD [OF inv, of h] by (simp add: f)
  next
    fix p assume "nextPromise ?s' \<le> p"
    then show "resolveCalls ?s' p = 0" using ariaInv_freshD [OF inv, of p] by (simp add: f)
  next
    fix p assume p: "p < nextPromise ?s'" and z: "resolveCalls ?s' p = 0"
    then have "p < nextPromise s" "resolveCalls s p = 0"
      by (auto simp: f split: if_splits)
    from ariaInv_pendingD [OF inv this]
    show "onWalkComplete ?s' =
        Some \<lparr>cbRequestId = walkRequestId ?s', cbPromise = p\<rparr>" by (simp add: f)
  next
    fix p show "p \<in> set (settledLog ?s') \<longleftrightarrow> 0 < resolveCalls ?s' p"
      using ariaInv_logD [OF inv, of p] by (auto simp: f)
  next
    show "distinct (settledLog ?s')" using ariaInv_distinctD [OF inv] notin by (simp add: f)
  qed
qed

lemma walkTimeout_stale: "timers s h = None \<Longrightarrow> walkTimeout h s = s"
  by (simp add: walkTimeout_def)

lemma walkTimeout_settled:
  assumes "timers s h = Some t" "tRequestId t = walkRequestId s"
    "ariaState s = Idle \<or> ariaState s = Speaking"
  shows "walkTimeout h s = s\<lparr>timers := (timers s)(h := None)\<rparr>"
  using assms by (auto simp add: walkTimeout_def Let_def)

lemma callWalkResolve_current_eq:
  assumes "cbRequestId cb = walkRequestId s"
  shows "callWalkResolve cb s =
     resolvePromise (cbPromise cb)
       ((case pendingWalkTimeout s of
           Some h \<Rightarrow> (clearTimeout h s)\<lparr>pendingWalkTimeout := None\<rparr>
         | None \<Rightarrow> s)\<lparr>onWalkComplete := None, pendingWalkResolve := None\<rparr>)"
  using assms by (simp add: callWalkResolve_def Let_def)

lemma walkTimeout_snap:
  assumes inv: "ariaInv s" and tm: "timers s h = Some t"
    and st: "ariaState s \<noteq> Idle" "ariaState s \<noteq> Speaking"
  shows "position (walkTimeout h s) = (walkEndPos s)\<lparr>vy := 0\<rparr>"
    and "ariaState (walkTimeout h s) = ariaState s"
    and "walkPlan (walkTimeout h s) = walkPlan s"
    and "cbView (walkTimeout h s) =
          (Map.empty, None, None, None, walkRequestId s, nextTimer s, nextPromise s,
           (resolveCalls s)(tPromise t := 2), settledLog s @ [tPromise t])"
proof -
  note tD = ariaInv_timerD [OF inv tm]
  let ?cb = "\<lparr>cbRequestId = walkRequestId s, cbPromise = tPromise t\<rparr>"
  have C: "onWalkComplete s = Some ?cb" and T: "pendingWalkTimeout s = Some h"
    and rq: "tRequestId t = walkRequestId s"
    using tD by simp_all
  note cbD = ariaInv_cbD [OF inv C]
  have z: "resolveCalls s (tPromise t) = 0" using cbD by simp
  then have notin: "tPromise t \<notin> set (settledLog s)" by (simp add: ariaInv_logD [OF inv])
  have e: "(timers s)(h := None) = Map.empty" by (rule ariaInv_one_timer [OF inv T])
  have cur: "cbRequestId ?cb = walkRequestId X" if "walkRequestId X = walkRequestId s" for X
    using that by simp
  show "position (walkTimeout h s) = (walkEndPos s)\<lparr>vy := 0\<rparr>"
    and "ariaState (walkTimeout h s) = ariaState s"
    and "walkPlan (walkTimeout h s) = walkPlan s"
    and "cbView (walkTimeout h s) =
          (Map.empty, None, None, None, walkRequestId s, nextTimer s, nextPromise s,
           (resolveCalls s)(tPromise t := 2), settledLog s @ [tPromise t])"
    using z notin tm rq st C T
    by (simp_all add: walkTimeout_def Let_def e resolvePromise_def walkPlan_def cbView_def
          callWalkResolve_current [OF cur] numeral_2_eq_2)
qed

lemma ariaInv_walkTimeout:
  assumes inv: "ariaInv s"
  shows "ariaInv (walkTimeout h s)"
proof (cases "timers s h")
  case None
  then show ?thesis using inv by (simp add: walkTimeout_stale)
next
  case (Some t)
  note tD = ariaInv_timerD [OF inv Some]
  have T: "pendingWalkTimeout s = Some h" using tD by simp
  have e: "(timers s)(h := None) = Map.empty" by (rule ariaInv_one_timer [OF inv T])
  show ?thesis
  proof (cases "ariaState s = Idle \<or> ariaState s = Speaking")
    case True
    have w: "walkTimeout h s = s\<lparr>timers := Map.empty\<rparr>"
      using walkTimeout_settled [OF Some _ True] tD by (simp add: e)
    show ?thesis unfolding w using inv
      by (simp add: ariaInv_def)
  next
    case False
    then have st: "ariaState s \<noteq> Idle" "ariaState s \<noteq> Speaking" by simp_all
    let ?s' = "walkTimeout h s"
    note v = walkTimeout_snap(4) [OF inv Some st]
    have C: "onWalkComplete s = Some \<lparr>cbRequestId = walkRequestId s, cbPromise = tPromise t\<rparr>"
      using tD by simp
    note cbD = ariaInv_cbD [OF inv C]
    have notin: "tPromise t \<notin> set (settledLog s)"
      using cbD by (simp add: ariaInv_logD [OF inv])
    have f: "timers ?s' = Map.empty" "pendingWalkTimeout ?s' = None"
      "onWalkComplete ?s' = None" "pendingWalkResolve ?s' = None"
      "walkRequestId ?s' = walkRequestId s" "nextTimer ?s' = nextTimer s"
      "nextPromise ?s' = nextPromise s"
      "resolveCalls ?s' = (resolveCalls s)(tPromise t := 2)"
      "settledLog ?s' = settledLog s @ [tPromise t]"
      using v by (simp_all add: cbView_def)
    show ?thesis
    proof (rule ariaInvI)
      fix k u assume "timers ?s' k = Some u"
      then show "k < nextTimer ?s' \<and> pendingWalkTimeout ?s' = Some k
          \<and> tRequestId u = walkRequestId ?s'
          \<and> onWalkComplete ?s' = Some \<lparr>cbRequestId = walkRequestId ?s', cbPromise = tPromise u\<rparr>"
        by (simp add: f)
    next
      show "pendingWalkResolve ?s' = onWalkComplete ?s'" by (simp add: f)
    next
      fix c assume "onWalkComplete ?s' = Some c"
      then show "cbRequestId c = walkRequestId ?s' \<and> cbPromise c < nextPromise ?s'
          \<and> resolveCalls ?s' (cbPromise c) = 0"
        by (simp add: f)
    next
      fix k assume "pendingWalkTimeout ?s' = Some k"
      then show "k < nextTimer ?s'" by (simp add: f)
    next
      fix p assume "nextPromise ?s' \<le> p"
      then show "resolveCalls ?s' p = 0"
        using cbD ariaInv_freshD [OF inv, of p] by (auto simp: f)
    next
      fix p assume p: "p < nextPromise ?s'" and z: "resolveCalls ?s' p = 0"
      from z have ne: "p \<noteq> tPromise t" and z0: "resolveCalls s p = 0"
        by (auto simp: f split: if_splits)
      from p have "p < nextPromise s" by (simp add: f)
      from ariaInv_pendingD [OF inv this z0] C have "p = tPromise t" by simp
      with ne show "onWalkComplete ?s' =
          Some \<lparr>cbRequestId = walkRequestId ?s', cbPromise = p\<rparr>" by simp
    next
      fix p show "p \<in> set (settledLog ?s') \<longleftrightarrow> 0 < resolveCalls ?s' p"
        using ariaInv_logD [OF inv, of p] by (auto simp: f)
    next
      show "distinct (settledLog ?s')"
        using notin ariaInv_distinctD [OF inv] by (simp add: f)
    qed
  qed
qed

lemma updateTurningToCamera_arrive:
  assumes "onWalkComplete s = Some cb" "facingCamera d c s"
  shows "cbView (updateTurningToCamera d c s)
           = cbView (callWalkResolve cb (s\<lparr>onWalkComplete := None\<rparr>))"
proof (cases "mixer s")
  case None
  have "updateTurningToCamera d c s = callWalkResolve cb
     (s\<lparr>rotY := dvalue (dampRotation (rotY s)
                (atan2 (vx (subVectors c (position s))) (vz (subVectors c (position s))))
                turnSpeed d), ariaState := Speaking, rotX := 0, rotZ := 0, modelRotZ := 0,
         onWalkComplete := None\<rparr>)"
    using assms None by (simp add: updateTurningToCamera_def facingCamera_def Let_def)
  then show ?thesis
    by (simp only: ) (rule callWalkResolve_view, simp add: cbView_def)
next
  case (Some t)
  have "updateTurningToCamera d c s = callWalkResolve cb
     (s\<lparr>rotY := dvalue (dampRotation (rotY s)
                (atan2 (vx (subVectors c (position s))) (vz (subVectors c (position s))))
                turnSpeed d), ariaState := Speaking, rotX := 0, rotZ := 0,
         onWalkComplete := None\<rparr>)"
    using assms Some by (simp add: updateTurningToCamera_def facingCamera_def Let_def)
  then show ?thesis
    by (simp only: ) (rule callWalkResolve_view, simp add: cbView_def)
qed

lemma updateTurningToCamera_still:
  "onWalkComplete s = None \<or> \<not> facingCamera d c s \<Longrightarrow>
     cbView (updateTurningToCamera d c s) = cbView s"
proof (cases "onWalkComplete s")
  case None
  then show ?thesis by (simp add: cbView_def updateTurningToCamera_def Let_def)
next
  case (Some cb)
  assume "onWalkComplete s = None \<or> \<not> facingCamera d c s"
  with Some have "\<not> finished (dampRotation (rotY s)
        (atan2 (vx (subVectors c (position s))) (vz (subVectors c (position s)))) turnSpeed d)"
    by (simp add: facingCamera_def)
  then show ?thesis by (simp add: cbView_def updateTurningToCamera_def Let_def)
qed

lemma updateARIA_view:
  "cbView (updateARIA e c sp s) =
     (if ariaLoaded s \<and> ariaState s = TurningToCamera
         \<and> facingCamera (frameDelta e (lastUpdateTime s)) c s
      then (case onWalkComplete s of
              Some cb \<Rightarrow> cbView (callWalkResolve cb (s\<lparr>onWalkComplete := None\<rparr>))
            | None \<Rightarrow> cbView s)
      else cbView s)"
proof (cases "ariaLoaded s")
  case False
  then show ?thesis by (simp add: updateARIA_def)
next
  case True
  note unf = updateARIA_unfold [OF True]
  show ?thesis
  proof (cases "ariaState s")
    case TurningToCamera
    let ?d = "frameDelta e (lastUpdateTime s)"
    let ?s2 = "framePrelude e sp s"
    have v: "cbView (updateARIA e c sp s) = cbView (updateTurningToCamera ?d c ?s2)"
      using TurningToCamera by (simp add: unf)
    show ?thesis
    proof (cases "onWalkComplete s = None \<or> \<not> facingCamera ?d c s")
      case True
      then have "cbView (updateTurningToCamera ?d c ?s2) = cbView ?s2"
        by (intro updateTurningToCamera_still) simp
      then show ?thesis using True v by (auto split: option.splits)
    next
      case False
      then obtain cb where cb: "onWalkComplete s = Some cb" and fc: "facingCamera ?d c s"
        by auto
      have "cbView (updateTurningToCamera ?d c ?s2)
              = cbView (callWalkResolve cb (?s2\<lparr>onWalkComplete := None\<rparr>))"
        by (rule updateTurningToCamera_arrive) (simp_all add: cb fc)
      also have "\<dots> = cbView (callWalkResolve cb (s\<lparr>onWalkComplete := None\<rparr>))"
      proof (rule callWalkResolve_view)
        have "cbView ?s2 = cbView s" by simp
        then show "cbView (?s2\<lparr>onWalkComplete := None\<rparr>) = cbView (s\<lparr>onWalkComplete := None\<rparr>)"
          by (simp add: cbView_def)
      qed
      finally show ?thesis using v cb fc \<open>ariaLoaded s\<close> TurningToCamera by simp
    qed
  qed (simp_all add: unf)
qed

lemma ariaInv_updateARIA:
  assumes inv: "ariaInv s"
  shows "ariaInv (updateARIA e c sp s)"
proof (cases "ariaLoaded s \<and> ariaState s = TurningToCamera
         \<and> facingCamera (frameDelta e (lastUpdateTime s)) c s")
  case False
  then have "cbView (updateARIA e c sp s) = cbView s"
    by (simp only: updateARIA_view if_False)
  from ariaInv_view [OF this] inv show ?thesis by simp
next
  case True
  show ?thesis
  proof (cases "onWalkComplete s")
    case None
    with True have "cbView (updateARIA e c sp s) = cbView s"
      by (simp add: updateARIA_view)
    from ariaInv_view [OF this] inv show ?thesis by simp
  next
    case (Some cb)
    with True have "cbView (updateARIA e c sp s)
        = cbView (callWalkResolve cb (s\<lparr>onWalkComplete := None\<rparr>))"
      by (simp add: updateARIA_view)
    from ariaInv_view [OF this] ariaInv_callWalkResolve [OF inv Some] show ?thesis by simp
  qed
qed

lemma ariaInv_step: "ariaInv s \<Longrightarrow> ariaInv (ariaStep s ev)"
  by (cases ev)
     (simp_all add: ariaInv_load ariaInv_walkToPosition ariaInv_updateARIA
        ariaInv_walkTimeout ariaInv_reset)

lemma ariaInv_run: "ariaInv s \<Longrightarrow> ariaInv (ariaRun s evs)"
  unfolding ariaRun_def
  by (induction evs arbitrary: s) (simp_all add: ariaInv_step)

lemma ariaRun_Nil [simp]: "ariaRun s [] = s"
  by (simp add: ariaRun_def)

lemma ariaRun_Cons [simp]: "ariaRun s (ev # evs) = ariaRun (ariaStep s ev) evs"
  by (simp add: ariaRun_def)

lemma ariaRun_append: "ariaRun s (evs @ evs') = ariaRun (ariaRun s evs) evs'"
  by (simp add: ariaRun_def)

lemma walkArrives_iff:
  "walkArrives d s \<longleftrightarrow> max (walkDuration s) 0.001 \<le> walkElapsed s + d"
proof -
  have pos: "0 < max (walkDuration s) 0.001" by simp
  have "1 \<le> (walkElapsed s + d) / max (walkDuration s) 0.001
          \<longleftrightarrow> max (walkDuration s) 0.001 \<le> walkElapsed s + d"
    using pos by (simp only: le_divide_eq_1_pos)
  then show ?thesis
    unfolding walkArrives_def progressOf_def by (simp only: min.bounded_iff order_refl simp_thms)
qed

lemma updateARIA_lastUpdateTime:
  "ariaLoaded s \<Longrightarrow> lastUpdateTime (updateARIA e c sp s) = e"
  by (cases "mixer s")
     (simp_all add: updateARIA_def Let_def updateLightState_def updateIdle_def lookAtCamera_def
        updateTurningToTarget_def updateWalking_def updateTurningToCamera_def updateSpeaking_def
        callWalkResolve_def resolvePromise_def clearTimeout_def
        split: aria_state.splits option.splits)

lemma ticks_Suc:
  "ticks t0 dt (Suc n) c sp = ticks t0 dt n c sp @ [Frame (t0 + real (Suc n) * dt) c sp]"
  by (simp add: ticks_def)

lemma walking_ticks:
  assumes "ariaLoaded s" "ariaState s = Walking" "lastUpdateTime s = t0"
    and "0 < dt" "dt \<le> 0.05"
    and "walkElapsed s + real n * dt < max (walkDuration s) 0.001"
  shows "ariaState (ariaRun s (ticks t0 dt n c sp)) = Walking
       \<and> walkElapsed (ariaRun s (ticks t0 dt n c sp)) = walkElapsed s + real n * dt
       \<and> lastUpdateTime (ariaRun s (ticks t0 dt n c sp)) = t0 + real n * dt
       \<and> walkPlan (ariaRun s (ticks t0 dt n c sp)) = walkPlan s"
  using assms(6)
proof (induction n)
  case 0
  then show ?case using assms(1-3) by (simp add: ticks_def)
next
  case (Suc n)
  let ?s = "ariaRun s (ticks t0 dt n c sp)"
  let ?e = "t0 + real (Suc n) * dt"
  have eqn: "real (Suc n) * dt = real n * dt + dt" by (simp add: algebra_simps)
  have less: "walkElapsed s + real n * dt < max (walkDuration s) 0.001"
    using Suc.prems assms(4) unfolding eqn by linarith
  note ih = Suc.IH [OF less]
  have ld: "ariaLoaded ?s" and dur: "walkDuration ?s = walkDuration s"
    using ih assms(1) by (simp_all add: walkPlan_def)
  have last: "lastUpdateTime ?s = t0 + real n * dt" using ih by simp
  have d: "frameDelta (t0 + (real n * dt + dt)) (t0 + real n * dt) = dt"
    using assms(4,5) by (simp add: frameDelta_def Let_def)
  have "walkElapsed ?s + dt < max (walkDuration ?s) 0.001"
    using Suc.prems ih unfolding eqn dur by linarith
  then have na: "\<not> walkArrives dt ?s"
    unfolding walkArrives_iff by linarith
  have run: "ariaRun s (ticks t0 dt (Suc n) c sp) = updateARIA ?e c sp ?s"
    by (simp add: ticks_Suc ariaRun_append)
  show ?case
    unfolding run eqn using ih ld na
    by (simp add: updateARIA_state updateARIA_walkElapsed updateARIA_lastUpdateTime d)
qed

subsection \<open>Events other than a new walk\<close>

lemma resetToStart_fields [simp]:
  "cbView (resetToStart s) = cbView s"
  "walkPlan (resetToStart s) = walkPlan s"
  by (simp_all add: resetToStart_def cbView_def walkPlan_def Let_def)

lemma walkTimeout_plan [simp]: "walkPlan (walkTimeout h s) = walkPlan s"
  by (simp add: walkTimeout_def Let_def walkPlan_def resolvePromise_def
        split: option.splits)

lemma step_plan:
  "ariaLoaded s \<Longrightarrow> \<not> isWalkTo ev \<Longrightarrow> walkPlan (ariaStep s ev) = walkPlan s"
  by (cases ev) simp_all

lemma run_plan:
  "ariaLoaded s \<Longrightarrow> \<forall>ev\<in>set evs. \<not> isWalkTo ev \<Longrightarrow> walkPlan (ariaRun s evs) = walkPlan s"
proof (induction evs arbitrary: s)
  case Nil
  then show ?case by simp
next
  case (Cons ev evs)
  have p: "walkPlan (ariaStep s ev) = walkPlan s"
    using Cons.prems by (simp add: step_plan)
  then have "ariaLoaded (ariaStep s ev)" using Cons.prems(1) by (simp add: walkPlan_def)
  from Cons.IH [OF this] Cons.prems(2) p show ?case by simp
qed




subsection \<open>A settled promise stays as it is\<close>

lemma step_calls_stable:
  assumes inv: "ariaInv s" and pos: "0 < resolveCalls s p"
  shows "resolveCalls (ariaStep s ev) p = resolveCalls s p"
proof (cases ev)
  case (Loaded b)
  then show ?thesis by (simp add: loadARIA_def)
next
  case (WalkTo t)
  show ?thesis
  proof (cases "ariaLoaded s")
    case True
    from walkToPosition_loaded_view [OF inv True, of t, folded callsAfterCancel_def logAfterCancel_def]
    have "resolveCalls (snd (walkToPosition t s)) = callsAfterCancel s"
      by (simp add: cbView_def)
    then show ?thesis using WalkTo afterCancel(5) [OF inv pos] by simp
  next
    case False
    have "p \<noteq> nextPromise s" using pos ariaInv_freshD [OF inv, of p] by auto
    with walkToPosition_unloaded_view [OF False, of t] show ?thesis using WalkTo
      by (simp add: cbView_def)
  qed
next
  case (Frame e c sp)
  show ?thesis
  proof (cases "ariaLoaded s \<and> ariaState s = TurningToCamera
         \<and> facingCamera (frameDelta e (lastUpdateTime s)) c s \<and> onWalkComplete s \<noteq> None")
    case False
    then have "cbView (updateARIA e c sp s) = cbView s"
      by (auto simp: updateARIA_view)
    then show ?thesis using Frame by (simp add: cbView_def)
  next
    case True
    then obtain cb where cb: "onWalkComplete s = Some cb" by auto
    with True have v: "cbView (updateARIA e c sp s)
        = cbView (callWalkResolve cb (s\<lparr>onWalkComplete := None\<rparr>))"
      by (simp add: updateARIA_view)
    note cbD = ariaInv_cbD [OF inv cb]
    have cur: "cbRequestId cb = walkRequestId (s\<lparr>onWalkComplete := None\<rparr>)"
      using cbD by simp
    have "p \<noteq> cbPromise cb" using pos cbD by auto
    with callWalkResolve_current(5) [OF cur] v
    show ?thesis using Frame by (simp add: cbView_def)
  qed
next
  case (TimerFires h)
  show ?thesis
  proof (cases "timers s h")
    case None
    then show ?thesis using TimerFires by (simp add: walkTimeout_stale)
  next
    case (Some t)
    note tD = ariaInv_timerD [OF inv Some]
    show ?thesis
    proof (cases "ariaState s = Idle \<or> ariaState s = Speaking")
      case True
      from walkTimeout_settled [OF Some _ True] tD
      show ?thesis using TimerFires by simp
    next
      case False
      then have st: "ariaState s \<noteq> Idle" "ariaState s \<noteq> Speaking" by simp_all
      have "onWalkComplete s = Some \<lparr>cbRequestId = walkRequestId s, cbPromise = tPromise t\<rparr>"
        using tD by simp
      from ariaInv_cbD [OF inv this] pos have "p \<noteq> tPromise t" by auto
      with walkTimeout_snap(4) [OF inv Some st]
      show ?thesis using TimerFires by (simp add: cbView_def)
    qed
  qed
next
  case Reset
  have "cbView (resetToStart s) = cbView s" by simp
  then show ?thesis using Reset by (simp add: cbView_def)
qed

lemma run_calls_stable:
  "ariaInv s \<Longrightarrow> 0 < resolveCalls s p \<Longrightarrow> resolveCalls (ariaRun s evs) p = resolveCalls s p"
proof (induction evs arbitrary: s)
  case Nil
  then show ?case by simp
next
  case (Cons ev evs)
  have st: "resolveCalls (ariaStep s ev) p = resolveCalls s p"
    by (rule step_calls_stable [OF Cons.prems])
  with Cons.prems(2) have "0 < resolveCalls (ariaStep s ev) p" by simp
  from Cons.IH [OF ariaInv_step [OF Cons.prems(1)] this] st show ?case by simp
qed

lemma settled_once:
  assumes "ariaInv s" "0 < resolveCalls s p"
  shows "count_list (settledLog s) p = 1"
  using assms ariaInv_logD [OF assms(1), of p] ariaInv_distinctD [OF assms(1)]
  by (simp add: distinct_count_list_one)

lemma step_loaded: "ariaLoaded s \<Longrightarrow> ariaLoaded (ariaStep s ev)"
proof (cases ev)
  case (WalkTo t)
  assume "ariaLoaded s"
  then show ?thesis using WalkTo by (simp add: walkToPosition_loaded_fields)
next
  case (Loaded b)
  assume "ariaLoaded s"
  then show ?thesis using Loaded by simp
qed (use step_plan [of s ev] in \<open>simp_all add: walkPlan_def\<close>)

lemma step_nextPromise:
  assumes inv: "ariaInv s"
  shows "nextPromise s \<le> nextPromise (ariaStep s ev)"
proof (cases ev)
  case (Loaded b)
  then show ?thesis by (simp add: loadARIA_def)
next
  case (WalkTo t)
  show ?thesis
  proof (cases "ariaLoaded s")
    case True
    from walkToPosition_loaded_view [OF inv True, of t] show ?thesis using WalkTo
      by (simp add: cbView_def)
  next
    case False
    from walkToPosition_unloaded_view [OF False, of t] show ?thesis using WalkTo
      by (simp add: cbView_def)
  qed
next
  case (Frame e c sp)
  show ?thesis
  proof (cases "ariaLoaded s \<and> ariaState s = TurningToCamera
         \<and> facingCamera (frameDelta e (lastUpdateTime s)) c s \<and> onWalkComplete s \<noteq> None")
    case False
    then have "cbView (updateARIA e c sp s) = cbView s"
      by (auto simp: updateARIA_view)
    then show ?thesis using Frame by (simp add: cbView_def)
  next
    case True
    then obtain cb where cb: "onWalkComplete s = Some cb" by auto
    with True have v: "cbView (updateARIA e c sp s)
        = cbView (callWalkResolve cb (s\<lparr>onWalkComplete := None\<rparr>))"
      by (simp add: updateARIA_view)
    have cur: "cbRequestId cb = walkRequestId (s\<lparr>onWalkComplete := None\<rparr>)"
      using ariaInv_cbD [OF inv cb] by simp
    from callWalkResolve_current(9) [OF cur] v
    show ?thesis using Frame by (simp add: cbView_def)
  qed
next
  case (TimerFires h)
  show ?thesis
  proof (cases "timers s h")
    case None
    then show ?thesis using TimerFires by (simp add: walkTimeout_stale)
  next
    case (Some t)
    show ?thesis
    proof (cases "ariaState s = Idle \<or> ariaState s = Speaking")
      case True
      from walkTimeout_settled [OF Some _ True] ariaInv_timerD [OF inv Some]
      show ?thesis using TimerFires by simp
    next
      case False
      then have st: "ariaState s \<noteq> Idle" "ariaState s \<noteq> Speaking" by simp_all
      from walkTimeout_snap(4) [OF inv Some st]
      show ?thesis using TimerFires by (simp add: cbView_def)
    qed
  qed
next
  case Reset
  have "cbView (resetToStart s) = cbView s" by simp
  then show ?thesis using Reset by (simp add: cbView_def)
qed

lemma run_nextPromise:
  "ariaInv s \<Longrightarrow> nextPromise s \<le> nextPromise (ariaRun s evs)"
proof (induction evs arbitrary: s)
  case Nil
  then show ?case by simp
next
  case (Cons ev evs)
  from step_nextPromise [OF Cons.prems, of ev]
    Cons.IH [OF ariaInv_step [OF Cons.prems], of ev]
  show ?case by simp
qed

lemma run_loaded: "ariaLoaded s \<Longrightarrow> ariaLoaded (ariaRun s evs)"
  by (induction evs arbitrary: s) (simp_all add: step_loaded)

lemma ariaInv_reachable: "ariaInv (ariaRun ariaModule evs)"
  by (rule ariaInv_run [OF ariaInv_module])

text \<open>
  Claim C2. Take any state the module can reach, call \<open>walkToPosition\<close>, let anything
  happen (frames, timers, resets, further walks), and call \<open>walkToPosition\<close> again while
  the first call's promise is still pending. Then the second call invokes the first
  promise's \<open>resolve\<close> exactly once: the promise is settled (no hang), it appears once
  in the log of settled promises, and whatever happens afterwards its \<open>resolve\<close> is never
  called again (no double resolve). The second call's promise is a different one and is
  still pending after the call.
\<close>

theorem C2_second_walk_resolves_first_once:
  assumes s0: "s0 = ariaRun ariaModule evs0"
    and w1: "walkToPosition target1 s0 = (p1, s1)"
    and s2: "s2 = ariaRun s1 evs"
    and pending: "resolveCalls s2 p1 = 0"
    and w2: "walkToPosition target2 s2 = (p2, s3)"
  shows "resolveCalls s3 p1 = 1 \<and> count_list (settledLog s3) p1 = 1
       \<and> resolveCalls (ariaRun s3 evs') p1 = 1
       \<and> count_list (settledLog (ariaRun s3 evs')) p1 = 1
       \<and> p2 \<noteq> p1 \<and> resolveCalls s3 p2 = 0"
proof -
  have inv0: "ariaInv s0" unfolding s0 by (rule ariaInv_reachable)
  have p1: "p1 = nextPromise s0" and s1: "s1 = snd (walkToPosition target1 s0)"
    using w1 walkToPosition_fst [of target1 s0] by simp_all
  have inv1: "ariaInv s1" unfolding s1 by (rule ariaInv_walkToPosition [OF inv0])
  have inv2: "ariaInv s2" unfolding s2 by (rule ariaInv_run [OF inv1])
  have p2: "p2 = nextPromise s2" and s3: "s3 = snd (walkToPosition target2 s2)"
    using w2 walkToPosition_fst [of target2 s2] by simp_all
  have inv3: "ariaInv s3" unfolding s3 by (rule ariaInv_walkToPosition [OF inv2])
  have ld0: "ariaLoaded s0"
  proof (rule ccontr)
    assume un: "\<not> ariaLoaded s0"
    have "resolveCalls s0 p1 = 0" unfolding p1 by (rule ariaInv_freshD [OF inv0]) simp
    with walkToPosition_unloaded_view [OF un, of target1]
    have "resolveCalls s1 p1 = 1" by (simp add: cbView_def s1 p1)
    then have "resolveCalls s2 p1 = 1"
      unfolding s2 using run_calls_stable [OF inv1, of p1 evs] by simp
    with pending show False by simp
  qed
  have np1: "nextPromise s1 = p1 + 1"
    using walkToPosition_loaded_view [OF inv0 ld0, of target1] by (simp add: cbView_def s1 p1)
  have ld2: "ariaLoaded s2"
    unfolding s2 s1 by (intro run_loaded walkToPosition_loaded_fields(1) ld0)
  have lt: "p1 < nextPromise s2"
    using run_nextPromise [OF inv1, of evs] np1 by (simp add: s2)
  note v = walkToPosition_loaded_view [OF inv2 ld2, of target2,
      folded callsAfterCancel_def logAfterCancel_def]
  have c3: "resolveCalls s3 = callsAfterCancel s2" and l3: "settledLog s3 = logAfterCancel s2"
    using v by (simp_all add: cbView_def s3)
  note ac = afterCancel [OF inv2]
  have a: "resolveCalls s3 p1 = 1" unfolding c3 by (rule ac(6) [OF lt pending])
  have b: "count_list (settledLog s3) p1 = 1" unfolding l3 by (rule ac(7) [OF lt pending])
  have c: "resolveCalls (ariaRun s3 evs') p1 = 1"
    using run_calls_stable [OF inv3, of p1 evs'] a by simp
  have d: "count_list (settledLog (ariaRun s3 evs')) p1 = 1"
    by (rule settled_once [OF ariaInv_run [OF inv3]]) (simp add: c)
  have e: "p2 \<noteq> p1" using lt p2 by simp
  have f: "resolveCalls s3 p2 = 0" unfolding c3 p2 by (rule ac(1)) simp
  show ?thesis using a b c d e f by simp
qed

lemma ariaReady_fields:
  "ariaLoaded ariaReady" "position ariaReady = vec 0 0 2" "rotY ariaReady = 0"
  "onWalkComplete ariaReady = None" "nextPromise ariaReady = 0" "nextTimer ariaReady = 1"
  "walkRequestId ariaReady = 0" "resolveCalls ariaReady p = 0" "settledLog ariaReady = []"
  "lastUpdateTime ariaReady = 0" "ariaState ariaReady = Idle" "mixer ariaReady = Some 0"
  by (simp_all add: ariaReady_def loadARIA_def ariaModule_def ARIA_START_POS_def)

lemma ariaInv_ready: "ariaInv ariaReady"
  unfolding ariaReady_def by (rule ariaInv_reachable)

lemma first_walk_pending:
  "resolveCalls (snd (walkToPosition target ariaReady)) p = 0"
  using walkToPosition_loaded_view [OF ariaInv_ready ariaReady_fields(1), of target]
  by (simp add: cbView_def ariaReady_fields)

text \<open>The hypotheses of C2 hold for two walks issued back to back on the loaded
  avatar.\<close>

theorem C2_second_walk_resolves_first_once_witness:
  "resolveCalls (ariaRun (snd (walkToPosition (vec 0 0 (-5)) ariaReady)) []) 0 = 0
   \<and> resolveCalls
       (snd (walkToPosition (vec 6 0 (-5)) (snd (walkToPosition (vec 0 0 (-5)) ariaReady)))) 0 = 1
   \<and> count_list (settledLog
       (snd (walkToPosition (vec 6 0 (-5)) (snd (walkToPosition (vec 0 0 (-5)) ariaReady))))) 0 = 1"
proof -
  let ?s1 = "snd (walkToPosition (vec 0 0 (-5)) ariaReady)"
  let ?s3 = "snd (walkToPosition (vec 6 0 (-5)) (ariaRun ?s1 []))"
  have h1: "walkToPosition (vec 0 0 (-5)) ariaReady = (0, ?s1)"
    by (simp add: prod_eq_iff ariaReady_fields)
  have h2: "resolveCalls (ariaRun ?s1 []) 0 = 0"
    using first_walk_pending [of "vec 0 0 (-5)" 0] by simp
  have h3: "walkToPosition (vec 6 0 (-5)) (ariaRun ?s1 [])
              = (fst (walkToPosition (vec 6 0 (-5)) (ariaRun ?s1 [])), ?s3)"
    by (simp add: prod_eq_iff)
  from C2_second_walk_resolves_first_once [OF ariaReady_def h1 refl h2 h3, of "[]"] h2
  show ?thesis by simp
qed

lemma walkToPosition_lastUpdateTime [simp]:
  "lastUpdateTime (snd (walkToPosition targetPos s)) = lastUpdateTime s"
  by (simp add: walkToPosition_unfold startWalk_def setTimeout_def cancelPendingWalk_def
        callWalkResolve_def resolvePromise_def clearTimeout_def Let_def split: option.splits)

lemma ground_vec: "t\<lparr>vy := 0\<rparr> = vec (vx t) 0 (vz t)"
  by (simp add: vec_def)

lemma walking_ticks_view:
  assumes "ariaLoaded s" "ariaState s = Walking" "lastUpdateTime s = t0"
    and "0 < dt" "dt \<le> 0.05"
    and "walkElapsed s + real n * dt < max (walkDuration s) 0.001"
  shows "cbView (ariaRun s (ticks t0 dt n c sp)) = cbView s"
  using assms(6)
proof (induction n)
  case 0
  then show ?case by (simp add: ticks_def)
next
  case (Suc n)
  have eqn: "real (Suc n) * dt = real n * dt + dt" by (simp add: algebra_simps)
  have less: "walkElapsed s + real n * dt < max (walkDuration s) 0.001"
    using Suc.prems assms(4) unfolding eqn by linarith
  from walking_ticks [OF assms(1-5) less, of c sp]
  have st: "ariaState (ariaRun s (ticks t0 dt n c sp)) = Walking" by simp
  have "cbView (ariaRun s (ticks t0 dt (Suc n) c sp))
          = cbView (ariaRun s (ticks t0 dt n c sp))"
    by (simp add: ticks_Suc ariaRun_append updateARIA_view st)
  with Suc.IH [OF less] show ?case by simp
qed

lemma ticks_no_walk: "\<forall>ev\<in>set (ticks t0 dt n c sp). \<not> isWalkTo ev"
  by (auto simp: ticks_def)

text \<open>
  Claim C10. \<open>walkToPosition\<close> stores the requested target with its y coordinate
  forced to 0, and no event other than a new walk changes the stored end point.
  Hence, whatever the y of the requested target: in the frame in which the walk
  reaches progress 1 (the state goes from walking to turning to the camera) the avatar
  stands exactly at the target's x and z with y = 0, and so it does when the safety
  timeout snaps it there.
\<close>

theorem C10_walk_ends_on_ground:
  assumes "s0 = ariaRun ariaModule evs0" and "ariaLoaded s0"
    and "s1 = snd (walkToPosition targetPos s0)"
    and "\<forall>ev\<in>set evs. \<not> isWalkTo ev" and "s2 = ariaRun s1 evs"
  shows "walkEndPos s1 = vec (vx targetPos) 0 (vz targetPos)
       \<and> walkEndPos s2 = vec (vx targetPos) 0 (vz targetPos)
       \<and> (ariaState s2 = Walking \<and> ariaState (updateARIA e c sp s2) = TurningToCamera \<longrightarrow>
            position (updateARIA e c sp s2) = vec (vx targetPos) 0 (vz targetPos)
            \<and> vy (position (updateARIA e c sp s2)) = 0)
       \<and> (timers s2 h \<noteq> None \<and> ariaState s2 \<noteq> Idle \<and> ariaState s2 \<noteq> Speaking \<longrightarrow>
            position (walkTimeout h s2) = vec (vx targetPos) 0 (vz targetPos)
            \<and> vy (position (walkTimeout h s2)) = 0)"
proof -
  have inv0: "ariaInv s0" unfolding assms(1) by (rule ariaInv_reachable)
  have inv1: "ariaInv s1" unfolding assms(3) by (rule ariaInv_walkToPosition [OF inv0])
  have inv2: "ariaInv s2" unfolding assms(5) by (rule ariaInv_run [OF inv1])
  have ld1: "ariaLoaded s1" and e1: "walkEndPos s1 = vec (vx targetPos) 0 (vz targetPos)"
    unfolding assms(3) using walkToPosition_loaded_fields [OF assms(2), of targetPos]
    by (simp_all add: ground_vec)
  have plan: "walkPlan s2 = walkPlan s1"
    unfolding assms(5) by (rule run_plan [OF ld1 assms(4)])
  then have ld2: "ariaLoaded s2" and e2: "walkEndPos s2 = vec (vx targetPos) 0 (vz targetPos)"
    using ld1 e1 by (simp_all add: walkPlan_def)
  have a: "position (updateARIA e c sp s2) = vec (vx targetPos) 0 (vz targetPos)"
    if "ariaState s2 = Walking" "ariaState (updateARIA e c sp s2) = TurningToCamera"
  proof -
    have "walkArrives (frameDelta e (lastUpdateTime s2)) s2"
      using that ld2 by (simp add: updateARIA_state split: if_splits)
    from updateARIA_arrive(1) [OF ld2 that(1) this] show ?thesis
      by (simp add: e2 vec_def)
  qed
  have b: "position (walkTimeout h s2) = vec (vx targetPos) 0 (vz targetPos)"
    if "timers s2 h \<noteq> None" "ariaState s2 \<noteq> Idle" "ariaState s2 \<noteq> Speaking"
  proof -
    from that(1) obtain t where "timers s2 h = Some t" by auto
    from walkTimeout_snap(1) [OF inv2 this that(2,3)] show ?thesis
      by (simp add: e2 vec_def)
  qed
  show ?thesis using e1 e2 a b by (auto simp: vec_def)
qed

lemma walkToPosition_rotY [simp]:
  "rotY (snd (walkToPosition targetPos s)) = rotY s"
  by (simp add: walkToPosition_unfold startWalk_def setTimeout_def cancelPendingWalk_def
        callWalkResolve_def resolvePromise_def clearTimeout_def Let_def split: option.splits)

lemma updateARIA_starts_walking:
  assumes "ariaLoaded s" "ariaState s = TurningToTarget" "targetRotation s = rotY s"
  shows "ariaState (updateARIA e c sp s) = Walking"
    and "walkElapsed (updateARIA e c sp s) = walkElapsed s"
    and "lastUpdateTime (updateARIA e c sp s) = e"
    and "walkPlan (updateARIA e c sp s) = walkPlan s"
    and "cbView (updateARIA e c sp s) = cbView s"
proof -
  have "dampRotation (rotY s) (rotY s) turnSpeed (frameDelta e (lastUpdateTime s))
          = \<lparr>dvalue = rotY s, finished = True\<rparr>"
    by (rule dampRotation_within_tolerance) (simp add: ANGLE_TOLERANCE_def)
  then show "ariaState (updateARIA e c sp s) = Walking"
    using assms by (simp add: updateARIA_state)
  show "walkElapsed (updateARIA e c sp s) = walkElapsed s"
    using assms by (simp add: updateARIA_walkElapsed)
  show "lastUpdateTime (updateARIA e c sp s) = e"
    using assms by (simp add: updateARIA_lastUpdateTime)
  show "walkPlan (updateARIA e c sp s) = walkPlan s" by simp
  show "cbView (updateARIA e c sp s) = cbView s"
    using assms by (simp add: updateARIA_view)
qed

lemma aheadFrames_run:
  defines "s1 \<equiv> snd (walkToPosition (vec 0 5 3) ariaReady)"
  defines "s2 \<equiv> ariaRun s1 aheadFrames"
  shows "ariaLoaded s2" and "ariaState s2 = Walking" and "walkElapsed s2 = 3.56"
    and "lastUpdateTime s2 = 3.6" and "walkDuration s2 = 3.6" and "timers s2 1 \<noteq> None"
proof -
  note f = walkToPosition_loaded_fields [OF ariaReady_fields(1), of "vec 0 5 3"]
  have d: "distanceTo (vec 0 0 2) ((vec 0 5 3)\<lparr>vy := 0\<rparr>) = 1"
    by (simp add: distanceTo_def vec_def)
  have dur1: "walkDuration s1 = 3.6"
    unfolding s1_def by (simp add: f ariaReady_fields d walkSpeed_def)
  have tr: "targetRotation s1 = rotY s1"
    unfolding s1_def f(10) walkToPosition_rotY
    by (simp add: ariaReady_fields subVectors_def vec_def atan2_def)
  have ld1: "ariaLoaded s1" and st1: "ariaState s1 = TurningToTarget"
    and we1: "walkElapsed s1 = 0"
    unfolding s1_def by (simp_all add: f)
  have tm1: "timers s1 1 \<noteq> None"
    unfolding s1_def
    using walkToPosition_loaded_view [OF ariaInv_ready ariaReady_fields(1), of "vec 0 5 3"]
    by (simp add: cbView_def ariaReady_fields)
  let ?a = "updateARIA 0.04 (vec 0 1.5 6) False s1"
  note a = updateARIA_starts_walking [OF ld1 st1 tr, of "0.04" "vec 0 1.5 6" False]
  have lda: "ariaLoaded ?a" and dura: "walkDuration ?a = 3.6"
    using a(4) ld1 dur1 by (simp_all add: walkPlan_def)
  have less: "walkElapsed ?a + real (89::nat) * 0.04 < max (walkDuration ?a) 0.001"
    using a(2) we1 dura by simp
  note t = walking_ticks [OF lda a(1) a(3) _ _ less, of "vec 0 1.5 6" False, simplified]
  note v = walking_ticks_view [OF lda a(1) a(3) _ _ less, of "vec 0 1.5 6" False, simplified]
  have run: "s2 = ariaRun ?a (ticks 0.04 0.04 89 (vec 0 1.5 6) False)"
    by (simp add: s2_def aheadFrames_def)
  show "ariaLoaded s2" "ariaState s2 = Walking" "walkElapsed s2 = 3.56"
    "lastUpdateTime s2 = 3.6" "walkDuration s2 = 3.6"
    unfolding run using t lda dura a(2) we1 ld1 dur1 by (simp_all add: walkPlan_def)
  show "timers s2 1 \<noteq> None"
    unfolding run using v a(5) tm1 by (simp add: cbView_def)
qed

lemma aheadFrames_no_walk: "\<forall>ev\<in>set aheadFrames. \<not> isWalkTo ev"
  by (simp add: aheadFrames_def ticks_no_walk)

text \<open>A walk straight ahead to a target given with height 5: one frame ends the
  turn, ninety frames of 0.04 s bring the walk clock to 3.56 s of 3.6 s, and the next
  frame, or else the timeout, completes the walk on the ground.\<close>

theorem C10_walk_ends_on_ground_witness:
  "ariaLoaded ariaReady
   \<and> ariaState (ariaRun (snd (walkToPosition (vec 0 5 3) ariaReady)) aheadFrames) = Walking
   \<and> ariaState (updateARIA 3.64 (vec 0 1.5 6) False
        (ariaRun (snd (walkToPosition (vec 0 5 3) ariaReady)) aheadFrames)) = TurningToCamera
   \<and> timers (ariaRun (snd (walkToPosition (vec 0 5 3) ariaReady)) aheadFrames) 1 \<noteq> None
   \<and> position (updateARIA 3.64 (vec 0 1.5 6) False
        (ariaRun (snd (walkToPosition (vec 0 5 3) ariaReady)) aheadFrames)) = vec 0 0 3
   \<and> position (walkTimeout 1
        (ariaRun (snd (walkToPosition (vec 0 5 3) ariaReady)) aheadFrames)) = vec 0 0 3"
proof -
  let ?s2 = "ariaRun (snd (walkToPosition (vec 0 5 3) ariaReady)) aheadFrames"
  note r = aheadFrames_run
  have d: "frameDelta 3.64 3.6 = 0.04" by (simp add: frameDelta_def)
  have arr: "walkArrives 0.04 ?s2" by (simp add: walkArrives_iff r)
  have "walkArrives (frameDelta 3.64 (lastUpdateTime ?s2)) ?s2"
    unfolding r(4) d by (rule arr)
  then have st: "ariaState (updateARIA 3.64 (vec 0 1.5 6) False ?s2) = TurningToCamera"
    by (simp add: updateARIA_state r(1,2))
  from C10_walk_ends_on_ground [OF ariaReady_def ariaReady_fields(1) refl
      aheadFrames_no_walk refl, of "vec 0 5 3" "3.64" "vec 0 1.5 6" False 1]
    r st ariaReady_fields(1)
  show ?thesis by (simp add: vec_def)
qed

lemma sqrt_49: "sqrt 49 = 7"
  by (rule real_sqrt_unique) simp_all

lemma example_walk_fields:
  assumes "ariaLoaded s0" "position s0 = vec 0 0 2"
  shows "walkDuration (snd (walkToPosition (vec 0 0 (-5)) s0)) = 70 / 11"
    and "walkEndPos (snd (walkToPosition (vec 0 0 (-5)) s0)) = vec 0 0 (-5)"
    and "targetRotation (snd (walkToPosition (vec 0 0 (-5)) s0)) = pi"
proof -
  note f = walkToPosition_loaded_fields [OF assms(1), of "vec 0 0 (-5)"]
  have d: "distanceTo (vec 0 0 2) ((vec 0 0 (-5))\<lparr>vy := 0\<rparr>) = 7"
    by (simp add: distanceTo_def vec_def sqrt_49)
  show "walkDuration (snd (walkToPosition (vec 0 0 (-5)) s0)) = 70 / 11"
    unfolding f(2) assms(2) d by (simp add: walkSpeed_def)
  show "walkEndPos (snd (walkToPosition (vec 0 0 (-5)) s0)) = vec 0 0 (-5)"
    unfolding f(4) by (simp add: vec_def)
  show "targetRotation (snd (walkToPosition (vec 0 0 (-5)) s0)) = pi"
    unfolding f(10) assms(2) by (simp add: subVectors_def vec_def atan2_def)
qed

text \<open>
  Claim C5, as amended. A walk from (0,0,2) to (0,0,-5) at walk speed 1.1 gets the
  duration max(3.6, 7/1.1) = 70/11 s (about 6.364 s, not 6.36 s), starts in
  TurningToTarget with bearing pi and walk clock 0; in the frame in which the walk
  clock reaches 70/11 s the position is set exactly to (0,0,-5), lean and sway are
  zeroed, progress is 1 and the state becomes TurningToCamera.
\<close>

theorem C5_walk_example:
  assumes "ariaLoaded s0" and "position s0 = vec 0 0 2"
    and "s1 = snd (walkToPosition (vec 0 0 (-5)) s0)"
    and "\<forall>ev\<in>set evs. \<not> isWalkTo ev" and "s2 = ariaRun s1 evs"
    and "ariaState s2 = Walking"
    and "70 / 11 \<le> walkElapsed s2 + frameDelta e (lastUpdateTime s2)"
  shows "walkDuration s1 = 70 / 11 \<and> walkElapsed s1 = 0 \<and> ariaState s1 = TurningToTarget
       \<and> targetRotation s1 = pi
       \<and> position (updateARIA e c sp s2) = vec 0 0 (-5)
       \<and> rotX (updateARIA e c sp s2) = 0 \<and> rotZ (updateARIA e c sp s2) = 0
       \<and> walkProgress (updateARIA e c sp s2) = 1
       \<and> ariaState (updateARIA e c sp s2) = TurningToCamera"
proof -
  note f = walkToPosition_loaded_fields [OF assms(1), of "vec 0 0 (-5)"]
  note x = example_walk_fields [OF assms(1,2)]
  have ld1: "ariaLoaded s1" unfolding assms(3) by (rule f(1))
  have plan: "walkPlan s2 = walkPlan s1"
    unfolding assms(5) by (rule run_plan [OF ld1 assms(4)])
  then have ld2: "ariaLoaded s2" and dur2: "walkDuration s2 = 70 / 11"
    and e2: "walkEndPos s2 = vec 0 0 (-5)"
    using ld1 x by (simp_all add: walkPlan_def assms(3))
  have arr: "walkArrives (frameDelta e (lastUpdateTime s2)) s2"
    unfolding walkArrives_iff dur2 using assms(7) by simp
  note a = updateARIA_arrive [OF ld2 assms(6) arr, of c sp]
  have p: "position (updateARIA e c sp s2) = vec 0 0 (-5)"
    unfolding a(1) e2 by (simp add: vec_def)
  show ?thesis
    using x(1,3) f(5,9) p a(2-5) by (simp add: assms(3))
qed

lemma exampleFrames_no_walk: "\<forall>ev\<in>set exampleFrames. \<not> isWalkTo ev"
  by (simp add: exampleFrames_def ticks_no_walk)

lemma exampleStart_fields:
  "ariaLoaded exampleStart" "position exampleStart = vec 0 0 2" "rotY exampleStart = pi"
  "lastUpdateTime exampleStart = 0"
  by (simp_all add: exampleStart_def ariaReady_fields)

lemma exampleFrames_run:
  defines "s1 \<equiv> snd (walkToPosition (vec 0 0 (-5)) exampleStart)"
  defines "s2 \<equiv> ariaRun s1 exampleFrames"
  shows "ariaLoaded s2" and "ariaState s2 = Walking" and "walkElapsed s2 = 6.36"
    and "lastUpdateTime s2 = 6.4" and "walkDuration s2 = 70 / 11"
proof -
  note f = walkToPosition_loaded_fields [OF exampleStart_fields(1), of "vec 0 0 (-5)"]
  note x = example_walk_fields [OF exampleStart_fields(1,2)]
  have dur1: "walkDuration s1 = 70 / 11" unfolding s1_def by (rule x(1))
  have tr: "targetRotation s1 = rotY s1"
    unfolding s1_def x(3) walkToPosition_rotY by (simp add: exampleStart_fields)
  have ld1: "ariaLoaded s1" and st1: "ariaState s1 = TurningToTarget"
    and we1: "walkElapsed s1 = 0"
    unfolding s1_def by (simp_all add: f)
  let ?a = "updateARIA 0.04 (vec 0 1.5 6) False s1"
  note a = updateARIA_starts_walking [OF ld1 st1 tr, of "0.04" "vec 0 1.5 6" False]
  have lda: "ariaLoaded ?a" and dura: "walkDuration ?a = 70 / 11"
    using a(4) ld1 dur1 by (simp_all add: walkPlan_def)
  have less: "walkElapsed ?a + real (159::nat) * 0.04 < max (walkDuration ?a) 0.001"
    using a(2) we1 dura by simp
  note t = walking_ticks [OF lda a(1) a(3) _ _ less, of "vec 0 1.5 6" False, simplified]
  have run: "s2 = ariaRun ?a (ticks 0.04 0.04 159 (vec 0 1.5 6) False)"
    by (simp add: s2_def exampleFrames_def)
  show "ariaLoaded s2" "ariaState s2 = Walking" "walkElapsed s2 = 6.36"
    "lastUpdateTime s2 = 6.4" "walkDuration s2 = 70 / 11"
    unfolding run using t lda dura a(2) we1 ld1 dur1 by (simp_all add: walkPlan_def)
qed

text \<open>The same walk, the avatar already facing its target: one frame ends the turn,
  159 frames of 0.04 s bring the walk clock to 6.36 s, and the next frame takes it to
  6.40 s, past 70/11 s.\<close>

theorem C5_walk_example_witness:
  "ariaLoaded exampleStart \<and> position exampleStart = vec 0 0 2
   \<and> ariaState (ariaRun (snd (walkToPosition (vec 0 0 (-5)) exampleStart)) exampleFrames)
       = Walking
   \<and> 70 / 11 \<le> walkElapsed
         (ariaRun (snd (walkToPosition (vec 0 0 (-5)) exampleStart)) exampleFrames)
        + frameDelta 6.44 (lastUpdateTime
            (ariaRun (snd (walkToPosition (vec 0 0 (-5)) exampleStart)) exampleFrames))
   \<and> position (updateARIA 6.44 (vec 0 1.5 6) False
        (ariaRun (snd (walkToPosition (vec 0 0 (-5)) exampleStart)) exampleFrames))
       = vec 0 0 (-5)
   \<and> ariaState (updateARIA 6.44 (vec 0 1.5 6) False
        (ariaRun (snd (walkToPosition (vec 0 0 (-5)) exampleStart)) exampleFrames))
       = TurningToCamera"
proof -
  let ?s2 = "ariaRun (snd (walkToPosition (vec 0 0 (-5)) exampleStart)) exampleFrames"
  note r = exampleFrames_run
  have d: "frameDelta 6.44 6.4 = 0.04" by (simp add: frameDelta_def)
  have h: "70 / 11 \<le> walkElapsed ?s2 + frameDelta 6.44 (lastUpdateTime ?s2)"
    unfolding r(3,4) d by simp
  from C5_walk_example [OF exampleStart_fields(1,2) refl exampleFrames_no_walk refl r(2) h,
      of "vec 0 1.5 6" False]
    h r(2) exampleStart_fields(1,2)
  show ?thesis by simp
qed

text \<open>The claim as stated fails: when the walk clock has advanced by 6.36 s the walk
  is not over (6.36 < 70/11), the avatar is still walking.\<close>

theorem C5_walk_example_counterexample:
  "walkDuration (snd (walkToPosition (vec 0 0 (-5)) exampleStart)) \<noteq> 6.36
   \<and> walkElapsed (ariaRun (snd (walkToPosition (vec 0 0 (-5)) exampleStart)) exampleFrames)
       = 6.36
   \<and> ariaState (ariaRun (snd (walkToPosition (vec 0 0 (-5)) exampleStart)) exampleFrames)
       \<noteq> TurningToCamera"
  using exampleFrames_run(2,3) example_walk_fields(1) [OF exampleStart_fields(1,2)]
  by simp

lemma frameDelta_eq:
  "frameDelta elapsed lastUpdate
     = (if 0 < elapsed - lastUpdate then min 0.05 (elapsed - lastUpdate) else 0.016)"
  by (simp add: frameDelta_def Let_def)

lemma callWalkResolve_pose [simp]:
  "rotY (callWalkResolve cb s) = rotY s"
  "targetLightIntensity (callWalkResolve cb s) = targetLightIntensity s"
  "isSpeakingState (callWalkResolve cb s) = isSpeakingState s"
  by (simp_all add: callWalkResolve_def resolvePromise_def clearTimeout_def Let_def
        split: option.splits)

lemma updateWalking_pose:
  "rotY (updateWalking e d s) = rotY s"
  "isSpeakingState (updateWalking e d s) = isSpeakingState s"
  "vy (position (updateWalking e d s))
     = (if walkArrives d s then 0
        else \<bar>sin (stepPhase s + d * bobFrequency * 1.15)\<bar> * bobAmplitude)"
  by (cases "walkArrives d s",
      simp_all add: updateWalking_arrive,
      simp_all add: updateWalking_def walkArrives_def Let_def)

lemma updateTurningToCamera_pose:
  "rotY (updateTurningToCamera d c s)
     = dvalue (dampRotation (rotY s) (cameraBearing c s) turnSpeed d)"
  "position (updateTurningToCamera d c s) = position s"
  "isSpeakingState (updateTurningToCamera d c s) = isSpeakingState s"
  by (simp_all add: updateTurningToCamera_def cameraBearing_def Let_def split: option.splits)

lemma updateTurningToTarget_pose:
  "position (updateTurningToTarget d s) = position s"
  "isSpeakingState (updateTurningToTarget d s) = isSpeakingState s"
  by (simp_all add: updateTurningToTarget_def Let_def)

lemma updateIdle_pose:
  "rotY (updateIdle e d c s) = dvalue (dampRotation (rotY s) (cameraBearing c s) 1.4 d)"
  "vy (position (updateIdle e d c s)) = sin (e * 0.7) * idleBreath"
  "isSpeakingState (updateIdle e d c s) = isSpeakingState s"
  by (simp_all add: updateIdle_def lookAtCamera_def cameraBearing_def subVectors_def vec_def Let_def)

lemma updateSpeaking_pose:
  "rotY (updateSpeaking e d c s) = dvalue (dampRotation (rotY s) (cameraBearing c s) 1.1 d)"
  "vy (position (updateSpeaking e d c s)) = sin (e * 0.8) * idleBreath"
  "isSpeakingState (updateSpeaking e d c s) = isSpeakingState s"
  by (simp_all add: updateSpeaking_def lookAtCamera_def cameraBearing_def subVectors_def vec_def Let_def)

lemma updateLightState_pose:
  "rotY (updateLightState e s) = rotY s"
  "targetLightIntensity (updateLightState e s)
     = (if isSpeakingState s then 2 + sin (e * 5) * 0.3 else 1)"
  by (simp_all add: updateLightState_def Let_def)

lemma framePrelude_pose [simp]:
  "isSpeakingState (framePrelude e sp s) = sp"
  "cameraBearing c (framePrelude e sp s) = cameraBearing c s"
  by (simp_all add: framePrelude_def cameraBearing_def Let_def split: option.splits)

lemma updateARIA_rotY:
  "rotY (updateARIA e c sp s) =
     (if \<not> ariaLoaded s then rotY s
      else case ariaState s of
             Idle \<Rightarrow> dvalue (dampRotation (rotY s) (cameraBearing c s) 1.4
                        (frameDelta e (lastUpdateTime s)))
           | TurningToTarget \<Rightarrow> dvalue (dampRotation (rotY s) (targetRotation s) turnSpeed
                        (frameDelta e (lastUpdateTime s)))
           | Walking \<Rightarrow> rotY s
           | TurningToCamera \<Rightarrow> dvalue (dampRotation (rotY s) (cameraBearing c s) turnSpeed
                        (frameDelta e (lastUpdateTime s)))
           | Speaking \<Rightarrow> dvalue (dampRotation (rotY s) (cameraBearing c s) 1.1
                        (frameDelta e (lastUpdateTime s))))"
proof (cases "ariaLoaded s")
  case False
  then show ?thesis by (simp add: updateARIA_def)
next
  case True
  show ?thesis
    by (cases "ariaState s")
       (simp_all add: updateARIA_unfold [OF True] True updateLightState_pose updateIdle_pose
          updateSpeaking_pose updateWalking_pose updateTurningToCamera_pose)
qed

lemma updateARIA_breath:
  "vy (position (updateARIA e c sp s)) =
     (if \<not> ariaLoaded s then vy (position s)
      else case ariaState s of
             Idle \<Rightarrow> sin (e * 0.7) * idleBreath
           | TurningToTarget \<Rightarrow> vy (position s)
           | Walking \<Rightarrow>
               if walkArrives (frameDelta e (lastUpdateTime s)) s then 0
               else \<bar>sin (stepPhase s + frameDelta e (lastUpdateTime s) * bobFrequency * 1.15)\<bar>
                      * bobAmplitude
           | TurningToCamera \<Rightarrow> vy (position s)
           | Speaking \<Rightarrow> sin (e * 0.8) * idleBreath)"
proof (cases "ariaLoaded s")
  case False
  then show ?thesis by (simp add: updateARIA_def)
next
  case True
  show ?thesis
    by (cases "ariaState s")
       (simp_all add: updateARIA_unfold [OF True] True updateIdle_pose
          updateSpeaking_pose updateWalking_pose updateTurningToCamera_pose
          updateTurningToTarget_pose)
qed

lemma updateARIA_light:
  "targetLightIntensity (updateARIA e c sp s) =
     (if \<not> ariaLoaded s then targetLightIntensity s
      else if sp then 2 + sin (e * 5) * 0.3 else 1)"
proof (cases "ariaLoaded s")
  case False
  then show ?thesis by (simp add: updateARIA_def)
next
  case True
  show ?thesis
    by (cases "ariaState s")
       (simp_all add: updateARIA_unfold [OF True] True updateLightState_pose updateIdle_pose
          updateSpeaking_pose updateWalking_pose updateTurningToCamera_pose
          updateTurningToTarget_pose)
qed

text \<open>
  Claim C9, as amended. In every call of \<open>updateARIA\<close> the time step \<open>delta\<close> is
  min(0.05, raw delta) when the elapsed time has advanced and 0.016 s when it has not;
  it is positive and at most 0.05 s. One frame advances the walk clock by exactly this
  step while walking (and not otherwise), the stride phase by this step times its
  frequency, the animation mixer by exactly this step, and in every state that turns
  the avatar (idle, turning to the target, turning to the camera, speaking) the yaw is
  damped with this step. The breathing bob of the idle and speaking states and the
  target of the light flicker are functions of the absolute elapsed time, not of the
  step.
\<close>

theorem C9_frame_step_clamped:
  "(let d = frameDelta elapsed (lastUpdateTime s);
        s' = updateARIA elapsed cameraPos isSpeaking s
    in d = (if 0 < elapsed - lastUpdateTime s
            then min 0.05 (elapsed - lastUpdateTime s) else 0.016)
     \<and> 0 < d \<and> d \<le> 0.05
     \<and> walkElapsed s'
          = (if ariaLoaded s \<and> ariaState s = Walking then walkElapsed s + d else walkElapsed s)
     \<and> walkElapsed s' \<le> walkElapsed s + 0.05
     \<and> stepPhase s'
          = (if ariaLoaded s \<and> ariaState s = Walking \<and> \<not> walkArrives d s
             then stepPhase s + d * bobFrequency * 1.15 else stepPhase s)
     \<and> stepPhase s' \<le> stepPhase s + 0.05 * bobFrequency * 1.15
     \<and> mixer s' = (if ariaLoaded s then map_option (\<lambda>t. t + d) (mixer s) else mixer s)
     \<and> rotY s'
          = (if \<not> ariaLoaded s then rotY s
             else case ariaState s of
                    Idle \<Rightarrow> dvalue (dampRotation (rotY s) (cameraBearing cameraPos s) 1.4 d)
                  | TurningToTarget \<Rightarrow>
                      dvalue (dampRotation (rotY s) (targetRotation s) turnSpeed d)
                  | Walking \<Rightarrow> rotY s
                  | TurningToCamera \<Rightarrow>
                      dvalue (dampRotation (rotY s) (cameraBearing cameraPos s) turnSpeed d)
                  | Speaking \<Rightarrow>
                      dvalue (dampRotation (rotY s) (cameraBearing cameraPos s) 1.1 d))
     \<and> vy (position s')
          = (if \<not> ariaLoaded s then vy (position s)
             else case ariaState s of
                    Idle \<Rightarrow> sin (elapsed * 0.7) * idleBreath
                  | TurningToTarget \<Rightarrow> vy (position s)
                  | Walking \<Rightarrow>
                      if walkArrives d s then 0
                      else \<bar>sin (stepPhase s + d * bobFrequency * 1.15)\<bar> * bobAmplitude
                  | TurningToCamera \<Rightarrow> vy (position s)
                  | Speaking \<Rightarrow> sin (elapsed * 0.8) * idleBreath)
     \<and> targetLightIntensity s'
          = (if \<not> ariaLoaded s then targetLightIntensity s
             else if isSpeaking then 2 + sin (elapsed * 5) * 0.3 else 1))"
proof -
  let ?d = "frameDelta elapsed (lastUpdateTime s)"
  let ?s' = "updateARIA elapsed cameraPos isSpeaking s"
  have eq: "?d = (if 0 < elapsed - lastUpdateTime s
                  then min 0.05 (elapsed - lastUpdateTime s) else 0.016)"
    by (rule frameDelta_eq)
  have le: "?d \<le> 0.05" and pos: "0 < ?d"
    by (rule frameDelta_le, rule frameDelta_pos)
  have we: "walkElapsed ?s' \<le> walkElapsed s + 0.05"
    using le by (simp add: updateARIA_walkElapsed)
  have "?d * bobFrequency * 1.15 \<le> 0.05 * bobFrequency * 1.15"
    using le by (simp add: bobFrequency_def)
  moreover have "0 \<le> 0.05 * bobFrequency * (1.15::real)"
    by (simp add: bobFrequency_def)
  ultimately have sp: "stepPhase ?s' \<le> stepPhase s + 0.05 * bobFrequency * 1.15"
    by (simp add: updateARIA_stepPhase)
  show ?thesis
    unfolding Let_def
    by (intro conjI, rule eq, rule pos, rule le, rule updateARIA_walkElapsed, rule we,
        rule updateARIA_stepPhase, rule sp, rule updateARIA_mixer, rule updateARIA_rotY,
        rule updateARIA_breath, rule updateARIA_light)
qed

text \<open>On the loaded idle avatar: a frame 10 s after the last one is stepped by
  0.05 s, a frame whose elapsed time has not advanced by 0.016 s; the mixer moves by
  that step.\<close>

theorem C9_frame_step_clamped_witness:
  "frameDelta 10 (lastUpdateTime ariaReady) = 0.05
   \<and> mixer (updateARIA 10 (vec 0 1.5 6) False ariaReady) = Some 0.05
   \<and> frameDelta 0 (lastUpdateTime ariaReady) = 0.016
   \<and> mixer (updateARIA 0 (vec 0 1.5 6) False ariaReady) = Some 0.016"
  using C9_frame_step_clamped [of 10 ariaReady "vec 0 1.5 6" False]
    C9_frame_step_clamped [of 0 ariaReady "vec 0 1.5 6" False]
  by (simp add: Let_def ariaReady_fields)

text \<open>The claim as stated fails: the breathing bob and the light flicker follow the
  whole gap between two frames. From the same idle state, a frame after a gap of
  5 pi / 7 s (about 2.24 s) and one after 10 pi / 7 s (about 4.49 s) both get the
  clamped step 0.05 s, yet the first puts the avatar at the top of its breathing cycle
  and the second at its middle, a quarter and a half of the cycle of 20 pi / 7 s away
  from where it was; the flicker target likewise moves through a quarter and a half of
  its cycle.\<close>

theorem C9_breathing_counterexample:
  "ariaLoaded ariaReady \<and> ariaState ariaReady = Idle \<and> lastUpdateTime ariaReady = 0
   \<and> frameDelta (5 * pi / 7) (lastUpdateTime ariaReady) = 0.05
   \<and> frameDelta (10 * pi / 7) (lastUpdateTime ariaReady) = 0.05
   \<and> vy (position (updateARIA (5 * pi / 7) (vec 0 1.5 6) False ariaReady)) = idleBreath
   \<and> vy (position (updateARIA (10 * pi / 7) (vec 0 1.5 6) False ariaReady)) = 0
   \<and> targetLightIntensity (updateARIA (pi / 10) (vec 0 1.5 6) True ariaReady) = 2.3
   \<and> targetLightIntensity (updateARIA (pi / 5) (vec 0 1.5 6) True ariaReady) = 2"
proof -
  have f: "ariaLoaded ariaReady" "ariaState ariaReady = Idle" "lastUpdateTime ariaReady = 0"
    by (simp_all add: ariaReady_fields)
  have p: "(0.05::real) < 5 * pi / 7" "(0.05::real) < 10 * pi / 7"
    using pi_ge_two by simp_all
  have d: "frameDelta (5 * pi / 7) 0 = 0.05" "frameDelta (10 * pi / 7) 0 = 0.05"
    using p by (simp_all add: frameDelta_eq)
  have a: "5 * pi / 7 * 0.7 = pi / 2" "10 * pi / 7 * 0.7 = pi"
    "pi / 10 * 5 = pi / 2" "pi / 5 * 5 = pi"
    by simp_all
  have b: "vy (position (updateARIA (5 * pi / 7) (vec 0 1.5 6) False ariaReady)) = idleBreath"
    "vy (position (updateARIA (10 * pi / 7) (vec 0 1.5 6) False ariaReady)) = 0"
    unfolding updateARIA_breath a by (simp_all add: f)
  have l: "targetLightIntensity (updateARIA (pi / 10) (vec 0 1.5 6) True ariaReady) = 2.3"
    "targetLightIntensity (updateARIA (pi / 5) (vec 0 1.5 6) True ariaReady) = 2"
    unfolding updateARIA_light a by (simp_all add: f)
  show ?thesis
    unfolding f using d b l f by simp
qed

lemma walkGuardedI:
  assumes "\<And>cb. onWalkComplete s = Some cb \<Longrightarrow>
     ariaState s \<noteq> Idle \<and> ariaState s \<noteq> Speaking
     \<and> (\<exists>h. pendingWalkTimeout s = Some h \<and> timers s h \<noteq> None)"
  shows "walkGuarded s"
  unfolding walkGuarded_def using assms by blast














subsection \<open>The path of the product cinematic\<close>

lemma orbitLoop_eq:
  "i \<le> segments + 1 \<Longrightarrow>
   orbitLoop i segments startAngle target radius height pathPoints
     = pathPoints @ map (orbitPoint segments startAngle target radius height) [i..<segments + 1]"
proof (induction i segments startAngle target radius height pathPoints rule: orbitLoop.induct)
  case (1 i segments startAngle target radius height pathPoints)
  show ?case
  proof (cases "i \<le> segments")
    case True
    have up: "[i..<segments + 1] = i # [i + 1..<segments + 1]"
      using True by (simp add: upt_conv_Cons del: upt_Suc)
    have step: "orbitLoop i segments startAngle target radius height pathPoints
        = orbitLoop (i + 1) segments startAngle target radius height
            (pathPoints @ [orbitPoint segments startAngle target radius height i])"
      by (subst orbitLoop.simps) (simp add: True Let_def orbitPoint_def del: upt_Suc)
    have ih: "orbitLoop (i + 1) segments startAngle target radius height
            (pathPoints @ [orbitPoint segments startAngle target radius height i])
        = (pathPoints @ [orbitPoint segments startAngle target radius height i])
        @ map (orbitPoint segments startAngle target radius height) [i + 1..<segments + 1]"
      using "1.IH" [OF True refl refl] True by (simp add: orbitPoint_def del: upt_Suc)
    show ?thesis unfolding step ih up by simp
  next
    case False
    with "1.prems" have "i = segments + 1" by simp
    then show ?thesis by (subst orbitLoop.simps) simp
  qed
qed

lemma cinematicShot_path:
  "fst (cinematicShot collectionName options s)
     = camPosition s #
       map (orbitPoint (shotSegments options) (shotStartAngle collectionName s)
              (shotTarget collectionName s) (shotRadius collectionName options s)
              (shotHeight collectionName options s))
           [0..<shotSegments options + 1]"
  unfolding cinematicShot_def shotSegments_def shotStartAngle_def shotRadius_def
    shotHeight_def shotTarget_def Let_def
  by (simp add: orbitLoop_eq del: upt_Suc)

lemma cinematicShot_look_length:
  "length (snd (cinematicShot collectionName options s))
     = length (fst (cinematicShot collectionName options s))"
  by (simp add: cinematicShot_def Let_def)

lemma playProductCinematic_path:
  "tourPath (snd (playProductCinematic collectionName options s))
     = Some (fst (cinematicShot collectionName options s), False)"
  "tourLookPath (snd (playProductCinematic collectionName options s))
     = Some (snd (cinematicShot collectionName options s), False)"
  by (simp_all add: playProductCinematic_def playTour_def startTour_def Let_def
        killTweensOfPosition_def split_beta)

lemma orbitPoint_closes:
  assumes "0 < segments"
  shows "orbitPoint segments startAngle target radius height segments
           = orbitPoint segments startAngle target radius height 0"
proof -
  have one: "real segments / real segments = 1" using assms by simp
  have c: "cos (startAngle + pi * 2) = cos startAngle"
    using cos_periodic [of startAngle] by (simp add: mult.commute)
  have sn: "sin (startAngle + pi * 2) = sin startAngle"
    using sin_periodic [of startAngle] by (simp add: mult.commute)
  show ?thesis
    unfolding orbitPoint_def one by (simp add: c sn)
qed

text \<open>
  Claim C6, as amended. The path that \<open>playProductCinematic\<close> builds and hands to the
  tour consists of the camera's current position followed by \<open>segments + 1\<close> orbit
  points, \<open>segments + 2\<close> points in all, and the look-at path has as many points.
  Orbit point \<open>i\<close> lies at angle \<open>startAngle + 2 pi i / segments\<close> around the target,
  at the radius and the height of the shot plus the lift \<open>0.2 sin (2 pi i / segments)\<close>,
  where \<open>startAngle\<close> is the bearing of the camera from the target; for a positive
  \<open>segments\<close> the last orbit point coincides with the first.
\<close>

theorem C6_cinematic_path:
  "fst (cinematicShot collectionName options s)
     = camPosition s #
       map (orbitPoint (shotSegments options) (shotStartAngle collectionName s)
              (shotTarget collectionName s) (shotRadius collectionName options s)
              (shotHeight collectionName options s))
           [0..<shotSegments options + 1]
   \<and> length (fst (cinematicShot collectionName options s)) = shotSegments options + 2
   \<and> length (snd (cinematicShot collectionName options s)) = shotSegments options + 2
   \<and> tourPath (snd (playProductCinematic collectionName options s))
        = Some (fst (cinematicShot collectionName options s), False)
   \<and> (0 < shotSegments options \<longrightarrow>
        fst (cinematicShot collectionName options s) ! (shotSegments options + 1)
          = fst (cinematicShot collectionName options s) ! 1)"
proof -
  let ?f = "orbitPoint (shotSegments options) (shotStartAngle collectionName s)
              (shotTarget collectionName s) (shotRadius collectionName options s)
              (shotHeight collectionName options s)"
  note p = cinematicShot_path [of collectionName options s]
  have len: "length (fst (cinematicShot collectionName options s)) = shotSegments options + 2"
    unfolding p by simp
  have last: "fst (cinematicShot collectionName options s) ! (shotSegments options + 1)
          = fst (cinematicShot collectionName options s) ! 1"
    if pos: "0 < shotSegments options"
  proof -
    have a: "(camPosition s # map ?f [0..<shotSegments options + 1]) ! (shotSegments options + 1)
               = ?f (shotSegments options)"
      by (simp del: upt_Suc add: nth_map_upt)
    have b: "(camPosition s # map ?f [0..<shotSegments options + 1]) ! 1 = ?f 0"
      by (simp del: upt_Suc add: nth_map_upt)
    show ?thesis unfolding p a b by (rule orbitPoint_closes [OF pos])
  qed
  show ?thesis
  proof (intro conjI impI)
    show "fst (cinematicShot collectionName options s) = camPosition s # map ?f [0..<shotSegments options + 1]"
      by (rule p)
    show "length (fst (cinematicShot collectionName options s)) = shotSegments options + 2"
      by (rule len)
    show "length (snd (cinematicShot collectionName options s)) = shotSegments options + 2"
      unfolding cinematicShot_look_length by (rule len)
    show "tourPath (snd (playProductCinematic collectionName options s))
        = Some (fst (cinematicShot collectionName options s), False)"
      by (rule playProductCinematic_path(1))
    assume "0 < shotSegments options"
    then show "fst (cinematicShot collectionName options s) ! (shotSegments options + 1)
          = fst (cinematicShot collectionName options s) ! 1"
      by (rule last)
  qed
qed

lemma shotExample_fields:
  "camPosition shotExample = vec 6 1.5 (-5)" "bounds shotExample = (\<lambda>_. None)"
  by (simp_all add: shotExample_def transitionTo_def transitionGoal_def cancelTransition_def
        newCameraController_def callFinish_def camResolve_def Let_def)

lemma exampleShot_parameters:
  "shotSegments exampleShotOptions = 4"
  "shotTarget ''minimal'' shotExample = vec 0 0.5 (-5)"
  "shotRadius ''minimal'' exampleShotOptions shotExample = 3"
  "shotHeight ''minimal'' exampleShotOptions shotExample = 1.5"
  "shotStartAngle ''minimal'' shotExample = 0"
  by (simp_all add: shotSegments_def shotTarget_def shotRadius_def shotHeight_def
        shotStartAngle_def exampleShotOptions_def shotExample_fields getProductPosition_def
        vec_def atan2_def)

lemma example_orbit_points:
  "map (orbitPoint 4 0 (vec 0 0.5 (-5)) 3 1.5) [0..<4 + 1]
     = [vec 3 1.5 (-5), vec 0 1.7 (-2), vec (-3) 1.5 (-5), vec 0 1.3 (-8), vec 3 1.5 (-5)]"
proof -
  have u: "[0..<4 + 1] = [0, 1, 2, 3, 4::nat]" by (simp add: upt_rec)
  have a: "pi * 2 * (1 / 4) = pi / 2" "pi * 2 * (2 / 4) = pi" "pi * 2 * (3 / 4) = 3 / 2 * pi"
    "1 / 4 * pi * 2 = pi / 2" "2 / 4 * pi * 2 = pi" "3 / 4 * pi * 2 = 3 / 2 * pi"
    "pi * 2 * (4 / 4) = 2 * pi" "4 / 4 * pi * 2 = 2 * pi"
    by simp_all
  have t: "cos (3 * pi / 2) = 0" "sin (3 * pi / 2) = - 1"
    using cos_3over2_pi sin_3over2_pi by simp_all
  have p: "orbitPoint 4 0 (vec 0 0.5 (-5)) 3 1.5 0 = vec 3 1.5 (-5)"
    "orbitPoint 4 0 (vec 0 0.5 (-5)) 3 1.5 1 = vec 0 1.7 (-2)"
    "orbitPoint 4 0 (vec 0 0.5 (-5)) 3 1.5 2 = vec (-3) 1.5 (-5)"
    "orbitPoint 4 0 (vec 0 0.5 (-5)) 3 1.5 3 = vec 0 1.3 (-8)"
    "orbitPoint 4 0 (vec 0 0.5 (-5)) 3 1.5 4 = vec 3 1.5 (-5)"
    unfolding orbitPoint_def
    by (simp_all only: of_nat_numeral of_nat_0 of_nat_1 add_0 a div_0 mult_zero_right
          mult_zero_left, simp_all add: vec_def t)
  show ?thesis unfolding u using p by simp
qed

text \<open>The example of the claim: 4 segments around (0, 0, -5) at radius 3 and height
  1.5, seen from bearing 0.\<close>

theorem C6_cinematic_path_witness:
  "0 < shotSegments exampleShotOptions
   \<and> fst (cinematicShot ''minimal'' exampleShotOptions shotExample)
       = [vec 6 1.5 (-5), vec 3 1.5 (-5), vec 0 1.7 (-2), vec (-3) 1.5 (-5), vec 0 1.3 (-8),
          vec 3 1.5 (-5)]
   \<and> fst (cinematicShot ''minimal'' exampleShotOptions shotExample) ! 5
       = fst (cinematicShot ''minimal'' exampleShotOptions shotExample) ! 1"
  using C6_cinematic_path [of "''minimal''" exampleShotOptions shotExample]
  unfolding exampleShot_parameters shotExample_fields example_orbit_points
  by simp

text \<open>The claim as stated fails on its own example: the path has 6 points, not 5;
  point 0 is the camera position (6, 1.5, -5), not the point at angle 0, which is
  point 1; point 4 is the point at angle 3 pi / 2 and differs from point 0.\<close>

theorem C6_cinematic_path_counterexample:
  "length (fst (cinematicShot ''minimal'' exampleShotOptions shotExample)) = 6
   \<and> fst (cinematicShot ''minimal'' exampleShotOptions shotExample) ! 0 = vec 6 1.5 (-5)
   \<and> fst (cinematicShot ''minimal'' exampleShotOptions shotExample) ! 0 \<noteq> vec 3 1.5 (-5)
   \<and> fst (cinematicShot ''minimal'' exampleShotOptions shotExample) ! 4 = vec 0 1.3 (-8)
   \<and> fst (cinematicShot ''minimal'' exampleShotOptions shotExample) ! 4
       \<noteq> fst (cinematicShot ''minimal'' exampleShotOptions shotExample) ! 0"
  unfolding cinematicShot_path exampleShot_parameters shotExample_fields example_orbit_points
  by (simp add: vec_def)

end
